theory Spec2Isabelle
  imports Complex_Main "HOL-Library.Word" "HOL-Library.Multiset"
begin

section \<open>Double-precision values\<close>

text \<open>
  The C++ sources compute with \<^verbatim>\<open>double\<close>. A double is modelled by the value it
  denotes: a finite double by a real number, and the three kinds of special values of
  IEEE 754 by constructors of their own. The special values follow IEEE 754 (a NaN
  compares false with everything, \<^verbatim>\<open>inf - inf\<close>, \<^verbatim>\<open>0 * inf\<close>, \<^verbatim>\<open>0 / 0\<close>
  and the square root of a negative number are NaN). Arithmetic on finite values is
  exact: rounding, overflow of a finite result and the sign of zero are not modelled
  (a division of a non-zero number by zero takes the sign of the numerator).
\<close>

datatype dbl = Fin (real_of: real) | PInf | NInf | NaN

fun is_Fin :: "dbl \<Rightarrow> bool" where
  "is_Fin (Fin r) = True"
| "is_Fin PInf = False"
| "is_Fin NInf = False"
| "is_Fin NaN = False"

fun dless :: "dbl \<Rightarrow> dbl \<Rightarrow> bool" where
  "dless (Fin a) (Fin b) = (a < b)"
| "dless (Fin a) PInf = True"
| "dless NInf (Fin b) = True"
| "dless NInf PInf = True"
| "dless a b = False"

fun dneg :: "dbl \<Rightarrow> dbl" where
  "dneg (Fin a) = Fin (- a)"
| "dneg PInf = NInf"
| "dneg NInf = PInf"
| "dneg NaN = NaN"

fun dadd :: "dbl \<Rightarrow> dbl \<Rightarrow> dbl" where
  "dadd (Fin a) (Fin b) = Fin (a + b)"
| "dadd NaN b = NaN"
| "dadd a NaN = NaN"
| "dadd PInf NInf = NaN"
| "dadd NInf PInf = NaN"
| "dadd PInf b = PInf"
| "dadd NInf b = NInf"
| "dadd a PInf = PInf"
| "dadd a NInf = NInf"

definition dsub :: "dbl \<Rightarrow> dbl \<Rightarrow> dbl" where
  "dsub a b = dadd a (dneg b)"

text \<open>The sign of an infinite product or quotient: positive when \<open>pos\<close> holds.\<close>

definition signed_inf :: "bool \<Rightarrow> dbl" where
  "signed_inf pos = (if pos then PInf else NInf)"

fun dmul :: "dbl \<Rightarrow> dbl \<Rightarrow> dbl" where
  "dmul (Fin a) (Fin b) = Fin (a * b)"
| "dmul NaN b = NaN"
| "dmul a NaN = NaN"
| "dmul (Fin a) PInf = (if a = 0 then NaN else signed_inf (0 < a))"
| "dmul (Fin a) NInf = (if a = 0 then NaN else signed_inf (a < 0))"
| "dmul PInf (Fin b) = (if b = 0 then NaN else signed_inf (0 < b))"
| "dmul NInf (Fin b) = (if b = 0 then NaN else signed_inf (b < 0))"
| "dmul PInf PInf = PInf"
| "dmul PInf NInf = NInf"
| "dmul NInf PInf = NInf"
| "dmul NInf NInf = PInf"

fun ddiv :: "dbl \<Rightarrow> dbl \<Rightarrow> dbl" where
  "ddiv (Fin a) (Fin b) =
     (if b \<noteq> 0 then Fin (a / b) else if a = 0 then NaN else signed_inf (0 < a))"
| "ddiv NaN b = NaN"
| "ddiv a NaN = NaN"
| "ddiv (Fin a) PInf = Fin 0"
| "ddiv (Fin a) NInf = Fin 0"
| "ddiv PInf (Fin b) = signed_inf (0 \<le> b)"
| "ddiv NInf (Fin b) = signed_inf (b < 0)"
| "ddiv PInf PInf = NaN"
| "ddiv PInf NInf = NaN"
| "ddiv NInf PInf = NaN"
| "ddiv NInf NInf = NaN"

fun dsqrt :: "dbl \<Rightarrow> dbl" where
  "dsqrt (Fin a) = (if a < 0 then NaN else Fin (sqrt a))"
| "dsqrt PInf = PInf"
| "dsqrt NInf = NaN"
| "dsqrt NaN = NaN"

fun dabs :: "dbl \<Rightarrow> dbl" where
  "dabs (Fin a) = Fin \<bar>a\<bar>"
| "dabs PInf = PInf"
| "dabs NInf = PInf"
| "dabs NaN = NaN"

text \<open>\<^verbatim>\<open>std::min(a, b)\<close> is \<^verbatim>\<open>(b < a) ? b : a\<close> and \<^verbatim>\<open>std::max(a, b)\<close> is
  \<^verbatim>\<open>(a < b) ? b : a\<close>.\<close>

definition std_min :: "dbl \<Rightarrow> dbl \<Rightarrow> dbl" where
  "std_min a b = (if dless b a then b else a)"

definition std_max :: "dbl \<Rightarrow> dbl \<Rightarrow> dbl" where
  "std_max a b = (if dless a b then b else a)"

text \<open>\<^verbatim>\<open>std::numeric_limits<double>::max()\<close>.\<close>

definition DBL_MAX :: dbl where
  "DBL_MAX = Fin ((2 - 1 / 2 ^ 52) * 2 ^ 1023)"





section \<open>The histogram class\<close>







section \<open>The scene container\<close>

text \<open>
  \<^verbatim>\<open>IndexT\<close> is \<^verbatim>\<open>uint32_t\<close> and \<^verbatim>\<open>UndefinedIndexT\<close> is its largest value
  (\<^verbatim>\<open>aliceVision/types.hpp\<close>).
\<close>

type_synonym IndexT = "32 word"

definition UndefinedIndexT :: IndexT where
  "UndefinedIndexT = - 1"

type_synonym Vec2 = "dbl \<times> dbl"
type_synonym Vec3 = "dbl \<times> dbl \<times> dbl"
type_synonym Mat = "dbl list list"

text \<open>A matrix is the list of its rows; \<^verbatim>\<open>M(r, c)\<close> is \<open>mat_at M r c\<close>.\<close>

definition mat_at :: "Mat \<Rightarrow> nat \<Rightarrow> nat \<Rightarrow> dbl" where
  "mat_at M r c = M ! r ! c"

text \<open>
  How a run of a C++ function ends: it returns (\<open>Done\<close>), an exception leaves it
  (\<open>Throws\<close>), or it reaches undefined behaviour (\<open>UB\<close>), such as an index outside a
  \<^verbatim>\<open>std::vector\<close> or the use of a null pointer.
\<close>

datatype 'a run = Done 'a | Throws | UB

text \<open>
  A \<^verbatim>\<open>std::map\<close> is the list of its entries in the order of the keys.
  \<open>map_of m k\<close> is \<^verbatim>\<open>find\<close>, and \<open>map_set m k v\<close> is the assignment
  \<^verbatim>\<open>m[k] = v\<close>.
\<close>

fun map_set :: "('k::linorder \<times> 'v) list \<Rightarrow> 'k \<Rightarrow> 'v \<Rightarrow> ('k \<times> 'v) list" where
  "map_set [] k v = [(k, v)]"
| "map_set ((k', v') # m) k v =
     (if k < k' then (k, v) # (k', v') # m
      else if k = k' then (k, v) # m
      else (k', v') # map_set m k v)"

record View =
  viewId :: IndexT
  poseId :: IndexT
  intrinsicId :: IndexT
  width :: nat
  height :: nat

text \<open>
  A distortion object is opaque here: only its presence matters. A pinhole intrinsic
  holds the image size, the scale (the focal lengths in pixels), the offset of the
  principal point, the distortion object (or a null pointer) and the flag that locks the
  ratio of the two scales. Every other camera type is \<open>NotPinhole\<close>: the dynamic cast
  to \<^verbatim>\<open>camera::Pinhole\<close> gives a null pointer for it.
\<close>

datatype Distortion = Distortion "dbl list"

record Pinhole =
  cam_w :: nat
  cam_h :: nat
  cam_scale :: Vec2
  cam_offset :: Vec2
  cam_distortion :: "Distortion option"
  cam_ratioLocked :: bool

datatype Intrinsic = IsPinhole Pinhole | NotPinhole

datatype EImageDescriberType = UNKNOWN | UNINITIALIZED | SIFT

record Observation =
  obs_x :: Vec2
  obs_id_feat :: IndexT
  obs_scale :: dbl

record Landmark =
  lm_X :: Vec3
  lm_descType :: EImageDescriberType
  observations :: "(IndexT \<times> Observation) list"

record Pose3 =
  pose_rotation :: Mat
  pose_center :: Vec3

record CameraPose =
  transform :: Pose3
  pose_locked :: bool

definition Identity3 :: Mat where
  "Identity3 = [[Fin 1, Fin 0, Fin 0], [Fin 0, Fin 1, Fin 0], [Fin 0, Fin 0, Fin 1]]"

definition Zero3 :: Vec3 where
  "Zero3 = (Fin 0, Fin 0, Fin 0)"

text \<open>The default-constructed \<^verbatim>\<open>CameraPose\<close>: the identity transform, not locked.\<close>

definition CameraPose_default :: CameraPose where
  "CameraPose_default = \<lparr>transform = \<lparr>pose_rotation = Identity3, pose_center = Zero3\<rparr>, pose_locked = False\<rparr>"

record SfMData =
  views :: "(IndexT \<times> View) list"
  intrinsics :: "(IndexT \<times> Intrinsic) list"
  poses :: "(IndexT \<times> CameraPose) list"
  landmarks :: "(IndexT \<times> Landmark) list"

text \<open>
  The methods of \<^verbatim>\<open>camera::Pinhole\<close> that the programs call and whose code is not
  part of the sources at hand: they are parameters of the model.
\<close>

record camera_lib =
  get_ud_pixel :: "Pinhole \<Rightarrow> Vec2 \<Rightarrow> Vec2"
  ima2cam :: "Pinhole \<Rightarrow> Vec2 \<Rightarrow> Vec2"
  cam2ima :: "Pinhole \<Rightarrow> Vec2 \<Rightarrow> Vec2"
  removeDistortion :: "Pinhole \<Rightarrow> Vec2 \<Rightarrow> Vec2"
  getK :: "Pinhole \<Rightarrow> Mat"
  setK :: "Mat \<Rightarrow> Pinhole \<Rightarrow> Pinhole"
  getPrincipalPoint :: "Pinhole \<Rightarrow> Vec2"

section \<open>The angle of a reconstructed pair\<close>




record ReconstructedPair =
  reference :: IndexT
  "next" :: IndexT
  pair_R :: Mat
  pair_t :: Vec3



definition dot3 :: "Vec3 \<Rightarrow> Vec3 \<Rightarrow> dbl" where
  "dot3 a b =
     (case a of (a0, a1, a2) \<Rightarrow> case b of (b0, b1, b2) \<Rightarrow>
        dadd (dadd (dmul a0 b0) (dmul a1 b1)) (dmul a2 b2))"



definition neg3 :: "Vec3 \<Rightarrow> Vec3" where
  "neg3 a = (case a of (a0, a1, a2) \<Rightarrow> (dneg a0, dneg a1, dneg a2))"

definition norm2 :: "Vec2 \<Rightarrow> dbl" where
  "norm2 p = dsqrt (dadd (dmul (fst p) (fst p)) (dmul (snd p) (snd p)))"

definition sub2 :: "Vec2 \<Rightarrow> Vec2 \<Rightarrow> Vec2" where
  "sub2 a b = (dsub (fst a) (fst b), dsub (snd a) (snd b))"


text \<open>\<^verbatim>\<open>- R.transpose() * t\<close> for a rotation \<open>R\<close> of three rows and three columns.\<close>

definition minus_Rt_t :: "Mat \<Rightarrow> Vec3 \<Rightarrow> Vec3" where
  "minus_Rt_t R t =
     neg3 (dot3 (mat_at R 0 0, mat_at R 1 0, mat_at R 2 0) t,
           dot3 (mat_at R 0 1, mat_at R 1 1, mat_at R 2 1) t,
           dot3 (mat_at R 0 2, mat_at R 1 2, mat_at R 2 2) t)"



text \<open>
  \<^verbatim>\<open>std::nth_element(first, nth, last)\<close> followed by the read of the element at
  \<open>nth\<close>: the element a sort by \<^verbatim>\<open><\<close> puts there. The sort is an insertion sort
  by a key, which keeps the order of elements with equal keys; \<^verbatim>\<open>std::sort\<close> promises
  no order among those, and nothing below depends on it. The sort stands for the
  library function on keys that are not NaN, where \<^verbatim>\<open><\<close> is a strict weak ordering.
\<close>

fun insert_by :: "('a \<Rightarrow> dbl) \<Rightarrow> 'a \<Rightarrow> 'a list \<Rightarrow> 'a list" where
  "insert_by key a [] = [a]"
| "insert_by key a (b # bs) =
     (if dless (key a) (key b) then a # b # bs else b # insert_by key a bs)"

definition sort_by :: "('a \<Rightarrow> dbl) \<Rightarrow> 'a list \<Rightarrow> 'a list" where
  "sort_by key xs = foldr (insert_by key) xs []"







section \<open>Checkerboards\<close>

text \<open>
  A checkerboard is a matrix of corner identifiers with \<open>rows\<close> rows and \<open>cols\<close> columns;
  \<open>cell b i j\<close> is \<^verbatim>\<open>b(i, j)\<close>. A cell without a detection holds \<open>UndefinedIndexT\<close>.
  The detector of an image gives its boards and the list of all its corners.
\<close>

record CheckerBoard =
  rows :: nat
  cols :: nat
  cell :: "nat \<Rightarrow> nat \<Rightarrow> IndexT"

record CheckerBoardCorner =
  corner_center :: Vec2

record CheckerDetector =
  getBoards :: "CheckerBoard list"
  getCorners :: "CheckerBoardCorner list"

text \<open>The default-constructed detector, which \<^verbatim>\<open>boardsAllImages[id]\<close> inserts for a
  missing key.\<close>

definition CheckerDetector_default :: CheckerDetector where
  "CheckerDetector_default = \<lparr>getBoards = [], getCorners = []\<rparr>"

text \<open>The cells in the order of the two nested loops
  \<^verbatim>\<open>for i < rows: for j < cols\<close>.\<close>

definition cells :: "CheckerBoard \<Rightarrow> (nat \<times> nat) list" where
  "cells b = concat (map (\<lambda>i. map (\<lambda>j. (i, j)) [0..<cols b]) [0..<rows b])"

section \<open>The libraries behind the calibration\<close>

text \<open>
  The parameter groups the refinement may change (\<^verbatim>\<open>BundleAdjustment::ERefineOptions\<close>).
\<close>

datatype ERefineOptions =
  REFINE_ROTATION | REFINE_TRANSLATION | REFINE_STRUCTURE | REFINE_INTRINSICS_FOCAL
  | REFINE_INTRINSICS_OPTICALOFFSET_ALWAYS | REFINE_INTRINSICS_DISTORTION | REFINE_INTRINSICS_ALL

text \<open>
  What a call of \<^verbatim>\<open>BundleAdjustmentSymbolicCeres::adjust\<close> gives back: success or
  failure, the poses, the new state of each pinhole intrinsic (as a function of its key
  and its old state) and the landmarks.
\<close>

record ba_result =
  ba_ok :: bool
  ba_poses :: "(IndexT \<times> CameraPose) list"
  ba_intrinsic :: "IndexT \<Rightarrow> Pinhole \<Rightarrow> Pinhole"
  ba_landmarks :: "(IndexT \<times> Landmark) list"

text \<open>
  The robust estimators, the linear algebra of Eigen and the refinement are not part of
  the sources at hand: they are parameters of the model.
  \<^item> \<open>ACRANSAC_resection Mcur Mref K\<close>: the call of \<^verbatim>\<open>ACRANSAC\<close> with the resection
    kernel (P3P), from the image points, the points of the pattern and the calibration
    matrix to \<^verbatim>\<open>vec_inliers\<close> and the matrix of the model. The random generator is
    default-seeded at each call, so the call is a function of its arguments.
  \<^item> \<open>ACRANSAC_homography Mref Mcur w h\<close>: the same with the homography kernel.
  \<^item> \<open>KRt_from_P P\<close>: the decomposition of a projection matrix.
  \<^item> \<open>svd_last_column V\<close>: \<^verbatim>\<open>N.col(N.cols() - 1)\<close> for \<open>N\<close> the matrix
    \<^verbatim>\<open>JacobiSVD(V).matrixV()\<close>, a vector of six numbers.
  \<^item> \<open>initial_pose A H\<close>: the pose of one view from the calibration matrix and the
    homography, by the linear method (the inverse of \<open>A\<close>, the scale with its sign, the
    cross product and the nearest rotation through a second SVD).
  \<^item> \<open>adjust distance options scene\<close>: the refinement; \<open>distance\<close> is the argument of
    \<^verbatim>\<open>setDistance\<close>, or \<open>None\<close> when it is not called.
\<close>

record calib_lib =
  ACRANSAC_resection :: "Vec2 list \<Rightarrow> Vec3 list \<Rightarrow> Mat \<Rightarrow> nat list \<times> Mat"
  ACRANSAC_homography :: "Vec2 list \<Rightarrow> Vec2 list \<Rightarrow> nat \<Rightarrow> nat \<Rightarrow> nat list \<times> Mat"
  KRt_from_P :: "Mat \<Rightarrow> Mat \<times> Mat \<times> Vec3"
  svd_last_column :: "Mat \<Rightarrow> dbl list"
  initial_pose :: "Mat \<Rightarrow> Mat \<Rightarrow> CameraPose"
  adjust :: "dbl option \<Rightarrow> ERefineOptions list \<Rightarrow> SfMData \<Rightarrow> ba_result"

text \<open>
  Modelled from the spec: the refinement solver, which mutates the poses, the intrinsics
  and the landmarks of the scene in place and leaves the views as they are. An intrinsic
  is mutated in place, so it keeps its key and its camera type.
\<close>

definition apply_adjust :: "ba_result \<Rightarrow> SfMData \<Rightarrow> SfMData" where
  "apply_adjust r s =
     s\<lparr>poses := ba_poses r,
       intrinsics :=
         map (\<lambda>(k, v). (k, case v of IsPinhole p \<Rightarrow> IsPinhole (ba_intrinsic r k p)
                                   | NotPinhole \<Rightarrow> NotPinhole)) (intrinsics s),
       landmarks := ba_landmarks r\<rparr>"

text \<open>The change of the pinhole object that the shared pointer \<^verbatim>\<open>pinhole\<close> and the
  entry \<open>k\<close> of the intrinsics both point to.\<close>

definition update_pinhole :: "IndexT \<Rightarrow> Pinhole \<Rightarrow> SfMData \<Rightarrow> SfMData" where
  "update_pinhole k p s =
     s\<lparr>intrinsics := map (\<lambda>(k', v). if k' = k then (k', IsPinhole p) else (k', v)) (intrinsics s)\<rparr>"

section \<open>Calibration from nested boards in one image\<close>

subsection \<open>The order of the boards\<close>

text \<open>
  The body of the comparator of \<^verbatim>\<open>std::sort\<close> for one board: the least distance of a
  defined corner to the centre of the image, starting from the largest double. A corner
  index outside the list of corners is undefined behaviour.
\<close>

fun mindist_loop ::
  "CheckerBoardCorner list \<Rightarrow> Vec2 \<Rightarrow> CheckerBoard \<Rightarrow> (nat \<times> nat) list \<Rightarrow> dbl \<Rightarrow> dbl run" where
  "mindist_loop corners center b [] mindist = Done mindist"
| "mindist_loop corners center b ((i, j) # rest) mindist =
     (if cell b i j = UndefinedIndexT then mindist_loop corners center b rest mindist
      else if unat (cell b i j) < length corners
      then mindist_loop corners center b rest
             (std_min (norm2 (sub2 (corner_center (corners ! unat (cell b i j))) center)) mindist)
      else UB)"

definition mindist :: "CheckerBoardCorner list \<Rightarrow> Vec2 \<Rightarrow> CheckerBoard \<Rightarrow> dbl run" where
  "mindist corners center b = mindist_loop corners center b (cells b) DBL_MAX"

text \<open>The value of a run that is known to return.\<close>

fun the_Done :: "'a run \<Rightarrow> 'a" where
  "the_Done (Done x) = x"
| "the_Done Throws = undefined"
| "the_Done UB = undefined"

fun is_Done :: "'a run \<Rightarrow> bool" where
  "is_Done (Done x) = True"
| "is_Done Throws = False"
| "is_Done UB = False"

text \<open>
  \<^verbatim>\<open>std::sort(boards.begin(), boards.end(), comparator)\<close>. A vector of fewer than two
  boards is left as it is, without a call of the comparator. Otherwise every board is
  compared at least once, so the distance of every board is computed; the result is
  the boards sorted by that distance. \<^verbatim>\<open>std::sort\<close> asks for a comparator that is a
  strict weak ordering. The comparison of distances is one as long as no distance is a
  NaN; with a NaN it is not one in general, and the model gives no result then.
\<close>

definition sort_boards ::
  "CheckerBoardCorner list \<Rightarrow> Vec2 \<Rightarrow> CheckerBoard list \<Rightarrow> CheckerBoard list run" where
  "sort_boards corners center boards =
     (if length boards < 2 then Done boards
      else if list_all (\<lambda>b. is_Done (mindist corners center b)) boards \<and>
              list_all (\<lambda>b. the_Done (mindist corners center b) \<noteq> NaN) boards
      then Done (sort_by (\<lambda>b. the_Done (mindist corners center b)) boards)
      else UB)"

subsection \<open>The loop over the boards\<close>

text \<open>The count of the defined cells of a board (\<^verbatim>\<open>count_points\<close>).\<close>

definition count_points :: "CheckerBoard \<Rightarrow> nat" where
  "count_points b = length (filter (\<lambda>(i, j). cell b i j \<noteq> UndefinedIndexT) (cells b))"

text \<open>
  The second pair of nested loops of an accepted board: one landmark with one observation
  for each defined cell, and the two lists of points for the pose estimation. The state
  is the landmarks of the scene, \<^verbatim>\<open>refpts\<close> and \<^verbatim>\<open>points\<close>; \<open>add_point\<close> is the
  body for a defined cell \<open>(i, j)\<close> whose corner exists. A corner index outside the list
  of corners is undefined behaviour.
\<close>

definition add_point ::
  "camera_lib \<Rightarrow> Pinhole \<Rightarrow> CheckerBoardCorner list \<Rightarrow> bool \<Rightarrow> CheckerBoard \<Rightarrow> dbl \<Rightarrow> nat \<Rightarrow>
   nat \<Rightarrow> nat \<Rightarrow> (IndexT \<times> Landmark) list \<times> Vec3 list \<times> Vec2 list \<Rightarrow>
   (IndexT \<times> Landmark) list \<times> Vec3 list \<times> Vec2 list" where
  "add_point C pinhole corners useSimplePinhole board localSquareSize idx_checkerboard_valid
     i j acc =
     (let cid = cell board i j;
          lms = fst acc; refpts = fst (snd acc); points = snd (snd acc);
          cx = Fin (real (cols board div 2));
          cy = Fin (real (rows board div 2));
          refpt = (dmul (dsub (Fin (real j)) cx) localSquareSize,
                   dmul (dsub (Fin (real i)) cy) localSquareSize,
                   Fin 0);
          pos = (word_of_nat (length lms) :: IndexT);
          curpt = get_ud_pixel C pinhole (corner_center (corners ! unat cid));
          campt = removeDistortion C pinhole
                    (ima2cam C pinhole (corner_center (corners ! unat cid)));
          scale = std_max (Fin (4 / 10)) (std_max (dabs (fst campt)) (dabs (snd campt)));
          nobs = (if \<not> useSimplePinhole then corner_center (corners ! unat cid) else curpt);
          obs = \<lparr>obs_x = nobs, obs_id_feat = pos, obs_scale = ddiv (Fin 1) scale\<rparr>;
          l = \<lparr>lm_X = refpt, lm_descType = SIFT,
               observations = [(word_of_nat idx_checkerboard_valid, obs)]\<rparr>
      in (map_set lms pos l, refpts @ [refpt], points @ [curpt]))"

fun add_points ::
  "camera_lib \<Rightarrow> Pinhole \<Rightarrow> CheckerBoardCorner list \<Rightarrow> bool \<Rightarrow> CheckerBoard \<Rightarrow> dbl \<Rightarrow> nat \<Rightarrow>
   (nat \<times> nat) list \<Rightarrow> (IndexT \<times> Landmark) list \<times> Vec3 list \<times> Vec2 list \<Rightarrow>
   ((IndexT \<times> Landmark) list \<times> Vec3 list \<times> Vec2 list) run" where
  "add_points C pinhole corners useSimplePinhole board localSquareSize idx_checkerboard_valid
     [] acc = Done acc"
| "add_points C pinhole corners useSimplePinhole board localSquareSize idx_checkerboard_valid
     ((i, j) # rest) acc =
     (if cell board i j = UndefinedIndexT
      then add_points C pinhole corners useSimplePinhole board localSquareSize
             idx_checkerboard_valid rest acc
      else if unat (cell board i j) < length corners
      then add_points C pinhole corners useSimplePinhole board localSquareSize
             idx_checkerboard_valid rest
             (add_point C pinhole corners useSimplePinhole board localSquareSize
                idx_checkerboard_valid i j acc)
      else UB)"

text \<open>
  The state of the loop over the boards: the scene, \<^verbatim>\<open>localSquareSize\<close> and
  \<^verbatim>\<open>idx_checkerboard_valid\<close>. The counter is a \<^verbatim>\<open>size_t\<close> that counts boards of a
  vector, so it cannot wrap; it is a natural number here. A key of a map is an \<open>IndexT\<close>:
  the conversion of the counter to 32 bits is \<open>word_of_nat\<close>.
\<close>

record grid_state =
  gs_sfmData :: SfMData
  localSquareSize :: dbl
  idx_checkerboard_valid :: nat

text \<open>How the loop ends: \<^verbatim>\<open>return false\<close> from its body, with the scene as it then
  is, or its normal end.\<close>

datatype loop_exit = Aborted SfMData | Finished grid_state

text \<open>
  The body of the loop for one board. A board with fewer than 30 defined cells is skipped
  (\<^verbatim>\<open>continue\<close>). Fewer than 10 inliers of the pose estimation end the function with
  \<^verbatim>\<open>false\<close>.
\<close>

definition board_step ::
  "calib_lib \<Rightarrow> camera_lib \<Rightarrow> Pinhole \<Rightarrow> View \<Rightarrow> CheckerBoardCorner list \<Rightarrow> bool \<Rightarrow>
   grid_state \<Rightarrow> CheckerBoard \<Rightarrow> loop_exit run" where
  "board_step L C pinhole view corners useSimplePinhole st board =
     (if count_points board < 30 then Done (Finished st)
      else
        (case add_points C pinhole corners useSimplePinhole board (localSquareSize st)
                (idx_checkerboard_valid st) (cells board)
                (landmarks (gs_sfmData st), [], []) of
           UB \<Rightarrow> UB
         | Throws \<Rightarrow> Throws
         | Done (lms, refpts, points) \<Rightarrow>
             (let sfm1 = (gs_sfmData st)\<lparr>landmarks := lms\<rparr>;
                  vec_inliers = fst (ACRANSAC_resection L points refpts (getK C pinhole));
                  model = snd (ACRANSAC_resection L points refpts (getK C pinhole))
              in if length vec_inliers < 10 then Done (Aborted sfm1)
                 else
                   (let R = fst (snd (KRt_from_P L model));
                        t = snd (snd (KRt_from_P L model));
                        newPose = \<lparr>transform = \<lparr>pose_rotation = R, pose_center = minus_Rt_t R t\<rparr>,
                                   pose_locked = False\<rparr>;
                        key = (word_of_nat (idx_checkerboard_valid st) :: IndexT);
                        sfm2 = sfm1\<lparr>poses := map_set (poses sfm1) key newPose\<rparr>;
                        newView = view\<lparr>viewId := key, poseId := key\<rparr>;
                        sfm3 = sfm2\<lparr>views := map_set (views sfm2) key newView\<rparr>
                    in Done (Finished
                         \<lparr>gs_sfmData = sfm3,
                          localSquareSize =
                            (if idx_checkerboard_valid st < 2
                             then dmul (localSquareSize st) (Fin 2)
                             else localSquareSize st),
                          idx_checkerboard_valid = idx_checkerboard_valid st + 1\<rparr>)))))"

fun boards_loop ::
  "calib_lib \<Rightarrow> camera_lib \<Rightarrow> Pinhole \<Rightarrow> View \<Rightarrow> CheckerBoardCorner list \<Rightarrow> bool \<Rightarrow>
   grid_state \<Rightarrow> CheckerBoard list \<Rightarrow> loop_exit run" where
  "boards_loop L C pinhole view corners useSimplePinhole st [] = Done (Finished st)"
| "boards_loop L C pinhole view corners useSimplePinhole st (board # rest) =
     (case board_step L C pinhole view corners useSimplePinhole st board of
        Done (Finished st') \<Rightarrow> boards_loop L C pinhole view corners useSimplePinhole st' rest
      | Done (Aborted s) \<Rightarrow> Done (Aborted s)
      | Throws \<Rightarrow> Throws
      | UB \<Rightarrow> UB)"

subsection \<open>Refinement and the correction of the aspect ratio\<close>

text \<open>
  Modelled from the spec: the accessors of the scale, the offset, the distortion object
  and the ratio lock of a pinhole intrinsic read and write the fields of that name.
\<close>

text \<open>
  The step between the two refinements of the simple pinhole variant: the ratio is
  locked, the vertical coordinate of every observation is rewritten for a vertical scale
  equal to the horizontal one, and \<^verbatim>\<open>scale(1) = scale(0)\<close> is set.
\<close>

definition rewrite_observation :: "Vec2 \<Rightarrow> dbl \<Rightarrow> Observation \<Rightarrow> Observation" where
  "rewrite_observation scale ppy ob =
     (let y = ddiv (dsub (snd (obs_x ob)) ppy) (snd scale);
          ny = dadd (dmul y (fst scale)) ppy
      in ob\<lparr>obs_x := (fst (obs_x ob), ny)\<rparr>)"

definition equalize_vertical_scale ::
  "camera_lib \<Rightarrow> Pinhole \<Rightarrow> (IndexT \<times> Landmark) list \<Rightarrow> Pinhole \<times> (IndexT \<times> Landmark) list" where
  "equalize_vertical_scale C pinhole lms =
     (let lockedCam = pinhole\<lparr>cam_ratioLocked := True\<rparr>;
          scale = cam_scale lockedCam;
          lms' = map (\<lambda>(k, l). (k, l\<lparr>observations :=
                    map (\<lambda>(v, ob). (v, rewrite_observation scale
                                          (snd (getPrincipalPoint C lockedCam)) ob))
                      (observations l)\<rparr>)) lms
      in (lockedCam\<lparr>cam_scale := (fst scale, fst scale)\<rparr>, lms'))"

definition innerGrids_options :: "ERefineOptions list" where
  "innerGrids_options = [REFINE_ROTATION, REFINE_TRANSLATION, REFINE_INTRINSICS_DISTORTION]"

text \<open>
  From the end of the loop to the last refinement. The result is \<open>False\<close> with the scene
  as it is when a refinement fails.
\<close>

definition refine_innerGrids ::
  "calib_lib \<Rightarrow> camera_lib \<Rightarrow> dbl \<Rightarrow> bool \<Rightarrow> IndexT \<Rightarrow> Pinhole \<Rightarrow> SfMData \<Rightarrow> bool \<times> SfMData" where
  "refine_innerGrids L C distance useSimplePinhole intrinsicId' pinhole s =
     (let pinhole1 = (if useSimplePinhole
                      then pinhole\<lparr>cam_offset := (Fin 0, Fin 0), cam_distortion := None\<rparr>
                      else pinhole);
          s1 = update_pinhole intrinsicId' pinhole1 s;
          r1 = adjust L (Some distance) innerGrids_options s1;
          s2 = apply_adjust r1 s1
      in if \<not> ba_ok r1 then (False, s2)
         else if useSimplePinhole then
           (let pinhole2 = ba_intrinsic r1 intrinsicId' pinhole1;
                eq = equalize_vertical_scale C pinhole2 (landmarks s2);
                s3 = update_pinhole intrinsicId' (fst eq) (s2\<lparr>landmarks := snd eq\<rparr>);
                r2 = adjust L (Some distance) innerGrids_options s3;
                s4 = apply_adjust r2 s3
            in if \<not> ba_ok r2 then (False, s4) else (True, s4))
         else (True, s2))"

text \<open>
  The end of the function: the views become the one original view, and the poses become
  the one pose \<^verbatim>\<open>ps[0]\<close> under the key of that view. \<^verbatim>\<open>ps[0]\<close> inserts a
  default-constructed pose when the key 0 is missing.
\<close>

definition pose_at_0 :: "(IndexT \<times> CameraPose) list \<Rightarrow> CameraPose" where
  "pose_at_0 ps = (case map_of ps 0 of Some cp \<Rightarrow> cp | None \<Rightarrow> CameraPose_default)"

definition finalize :: "IndexT \<Rightarrow> View \<Rightarrow> SfMData \<Rightarrow> SfMData" where
  "finalize viewId' view s =
     s\<lparr>views := map_set [] viewId' view,
       poses := map_set [] viewId' (pose_at_0 (poses s))\<rparr>"

subsection \<open>The function\<close>

text \<open>The centre of the image: \<^verbatim>\<open>{0.5 * w, 0.5 * h}\<close> for the width and the height of
  the view.\<close>

definition image_center :: "View \<Rightarrow> Vec2" where
  "image_center view =
     (dmul (Fin (1 / 2)) (Fin (real (width view))), dmul (Fin (1 / 2)) (Fin (real (height view))))"

text \<open>
  \<^verbatim>\<open>process_innerGrids\<close>. The result is the returned boolean and the scene as the
  function leaves it. \<^verbatim>\<open>sfmData.getViews()[viewId]\<close> inserts a null pointer for a
  missing view, and \<^verbatim>\<open>view->getIntrinsicId()\<close> then has undefined behaviour. The
  parameter \<^verbatim>\<open>squareSize\<close> is not used by the function.
\<close>

definition process_innerGrids ::
  "calib_lib \<Rightarrow> camera_lib \<Rightarrow> SfMData \<Rightarrow> (IndexT \<times> CheckerDetector) list \<Rightarrow> dbl \<Rightarrow> dbl \<Rightarrow> bool \<Rightarrow>
   (bool \<times> SfMData) run" where
  "process_innerGrids L C sfmData boardsAllImages squareSize distance useSimplePinhole =
     (if length boardsAllImages \<noteq> 1 then Done (False, sfmData)
      else
        (let sfm0 = sfmData\<lparr>landmarks := [], poses := []\<rparr>;
             viewId' = fst (hd boardsAllImages);
             detector = snd (hd boardsAllImages)
         in case map_of (views sfm0) viewId' of
              None \<Rightarrow> UB
            | Some view \<Rightarrow>
                (case map_of (intrinsics sfm0) (intrinsicId view) of
                   None \<Rightarrow> Done (False, sfm0)
                 | Some NotPinhole \<Rightarrow> Done (False, sfm0)
                 | Some (IsPinhole pinhole) \<Rightarrow>
                     (let center = image_center view
                      in if length (getBoards detector) < 1 then Done (False, sfm0)
                         else
                           (case sort_boards (getCorners detector) center (getBoards detector) of
                              UB \<Rightarrow> UB
                            | Throws \<Rightarrow> Throws
                            | Done boards \<Rightarrow>
                                (case boards_loop L C pinhole view (getCorners detector)
                                        useSimplePinhole
                                        \<lparr>gs_sfmData = sfm0, localSquareSize = Fin (1 / 4),
                                         idx_checkerboard_valid = 0\<rparr> boards of
                                   UB \<Rightarrow> UB
                                 | Throws \<Rightarrow> Throws
                                 | Done (Aborted s) \<Rightarrow> Done (False, s)
                                 | Done (Finished st) \<Rightarrow>
                                     (case refine_innerGrids L C distance useSimplePinhole
                                             (intrinsicId view) pinhole (gs_sfmData st) of
                                        (False, s) \<Rightarrow> Done (False, s)
                                      | (True, s) \<Rightarrow> Done (True, finalize viewId' view s))))))))"

subsection \<open>Notions for the statements\<close>

text \<open>Every defined cell of the board is an index into the list of corners.\<close>

definition corners_in_range :: "CheckerBoardCorner list \<Rightarrow> CheckerBoard \<Rightarrow> bool" where
  "corners_in_range corners b =
     list_all (\<lambda>(i, j). cell b i j = UndefinedIndexT \<or> unat (cell b i j) < length corners)
       (cells b)"

text \<open>The state in which the loop over the boards ends, if it ends normally.\<close>

fun finished_state :: "loop_exit run \<Rightarrow> grid_state option" where
  "finished_state (Done (Finished st)) = Some st"
| "finished_state (Done (Aborted s)) = None"
| "finished_state Throws = None"
| "finished_state UB = None"

text \<open>The state in which \<^verbatim>\<open>process_innerGrids\<close> enters the loop over the boards.\<close>

definition initial_grid_state :: "SfMData \<Rightarrow> grid_state" where
  "initial_grid_state sfmData =
     \<lparr>gs_sfmData = sfmData\<lparr>landmarks := [], poses := []\<rparr>, localSquareSize = Fin (1 / 4),
      idx_checkerboard_valid = 0\<rparr>"



text \<open>
  The distances of the defined corners of a board to the centre of the image, in the
  order of the cells; the words of the specification speak of the least of them. No
  coordinate of a corner is a NaN.
\<close>

definition corner_distances :: "CheckerBoardCorner list \<Rightarrow> Vec2 \<Rightarrow> CheckerBoard \<Rightarrow> dbl list" where
  "corner_distances corners center b =
     map (\<lambda>(i, j). norm2 (sub2 (corner_center (corners ! unat (cell b i j))) center))
       (filter (\<lambda>(i, j). cell b i j \<noteq> UndefinedIndexT) (cells b))"

definition corners_not_NaN :: "CheckerBoardCorner list \<Rightarrow> bool" where
  "corners_not_NaN corners =
     list_all (\<lambda>c. fst (corner_center c) \<noteq> NaN \<and> snd (corner_center c) \<noteq> NaN) corners"

section \<open>Calibration from several views (Zhang)\<close>

subsection \<open>The closed form\<close>

text \<open>\<^verbatim>\<open>computeV(H, i, j)\<close>: a row of six numbers.\<close>

definition computeV :: "Mat \<Rightarrow> nat \<Rightarrow> nat \<Rightarrow> dbl list" where
  "computeV H i j =
     [dmul (mat_at H 0 i) (mat_at H 0 j),
      dadd (dmul (mat_at H 0 i) (mat_at H 1 j)) (dmul (mat_at H 1 i) (mat_at H 0 j)),
      dmul (mat_at H 1 i) (mat_at H 1 j),
      dadd (dmul (mat_at H 2 i) (mat_at H 0 j)) (dmul (mat_at H 0 i) (mat_at H 2 j)),
      dadd (dmul (mat_at H 2 i) (mat_at H 1 j)) (dmul (mat_at H 1 i) (mat_at H 2 j)),
      dmul (mat_at H 2 i) (mat_at H 2 j)]"

text \<open>The matrix \<open>V\<close>: two rows for each homography, in the order of the keys.\<close>

definition V_matrix :: "(IndexT \<times> Mat) list \<Rightarrow> Mat" where
  "V_matrix homographies =
     concat (map (\<lambda>(k, H). [computeV H 0 1,
                             map2 dsub (computeV H 0 0) (computeV H 1 1)]) homographies)"

text \<open>The symmetric matrix \<open>B\<close> from the vector \<open>n\<close>.\<close>

definition B_matrix :: "dbl list \<Rightarrow> Mat" where
  "B_matrix n = [[n ! 0, n ! 1, n ! 3], [n ! 1, n ! 2, n ! 4], [n ! 3, n ! 4, n ! 5]]"

text \<open>
  The calibration matrix \<open>A\<close> from \<open>B\<close> (``Extract intrinsics from B''), with the
  operations in the order in which C++ evaluates them.
\<close>

definition zhang_intrinsics :: "Mat \<Rightarrow> Mat" where
  "zhang_intrinsics B =
     (let B00 = mat_at B 0 0; B01 = mat_at B 0 1; B02 = mat_at B 0 2;
          B11 = mat_at B 1 1; B12 = mat_at B 1 2; B22 = mat_at B 2 2;
          v0 = ddiv (dsub (dmul B01 B02) (dmul B00 B12)) (dsub (dmul B00 B11) (dmul B01 B01));
          lambda = dsub B22
                     (ddiv (dadd (dmul B02 B02) (dmul v0 (dsub (dmul B01 B02) (dmul B00 B12))))
                        B00);
          alpha = dsqrt (ddiv lambda B00);
          beta = dsqrt (ddiv (dmul lambda B00) (dsub (dmul B00 B11) (dmul B01 B01)));
          gamma = ddiv (dmul (dmul (dmul (dneg B01) alpha) alpha) beta) lambda;
          u0 = dsub (ddiv (dmul gamma v0) beta) (ddiv (dmul (dmul B02 alpha) alpha) lambda)
      in [[alpha, gamma, u0], [Fin 0, beta, v0], [Fin 0, Fin 0, Fin 1]])"

text \<open>
  From the homographies of an intrinsic to its calibration matrix, and the intrinsic
  after \<^verbatim>\<open>cameraPinhole->setK(A)\<close>. There is no test between the singular value
  decomposition and \<^verbatim>\<open>setK\<close>.
\<close>

definition zhang_A :: "calib_lib \<Rightarrow> (IndexT \<times> Mat) list \<Rightarrow> Mat" where
  "zhang_A L homographies =
     zhang_intrinsics (B_matrix (svd_last_column L (V_matrix homographies)))"

definition zhang_solve :: "calib_lib \<Rightarrow> camera_lib \<Rightarrow> (IndexT \<times> Mat) list \<Rightarrow> Pinhole \<Rightarrow> Pinhole" where
  "zhang_solve L C homographies cameraPinhole = setK C (zhang_A L homographies) cameraPinhole"

subsection \<open>The homographies of an intrinsic\<close>

text \<open>The points of one board for the homography: the pattern in units of the square
  size, and the undistorted corners.\<close>

fun homography_points ::
  "camera_lib \<Rightarrow> Pinhole \<Rightarrow> CheckerBoardCorner list \<Rightarrow> dbl \<Rightarrow> CheckerBoard \<Rightarrow>
   (nat \<times> nat) list \<Rightarrow> Vec2 list \<times> Vec2 list \<Rightarrow> (Vec2 list \<times> Vec2 list) run" where
  "homography_points C cameraPinhole corners squareSize b [] acc = Done acc"
| "homography_points C cameraPinhole corners squareSize b ((i, j) # rest) acc =
     (if cell b i j = UndefinedIndexT
      then homography_points C cameraPinhole corners squareSize b rest acc
      else if unat (cell b i j) < length corners
      then homography_points C cameraPinhole corners squareSize b rest
             (fst acc @ [(dmul (Fin (real j)) squareSize, dmul (Fin (real i)) squareSize)],
              snd acc @ [get_ud_pixel C cameraPinhole
                           (corner_center (corners ! unat (cell b i j)))])
      else UB)"

text \<open>\<^verbatim>\<open>boardsAllImages[id]\<close>: the detector of a view, a default one when there is
  none.\<close>

definition detector_of :: "(IndexT \<times> CheckerDetector) list \<Rightarrow> IndexT \<Rightarrow> CheckerDetector" where
  "detector_of boardsAllImages k =
     (case map_of boardsAllImages k of Some d \<Rightarrow> d | None \<Rightarrow> CheckerDetector_default)"

text \<open>
  The loop over the views for one intrinsic. The state is \<^verbatim>\<open>max_checkerboard_w\<close>,
  \<^verbatim>\<open>max_checkerboard_h\<close> and \<^verbatim>\<open>homographies\<close>. A view of another intrinsic, a view
  without exactly one board and a view whose homography has fewer than 10 inliers are
  passed over with \<^verbatim>\<open>continue\<close>.
\<close>

fun gather_homographies ::
  "calib_lib \<Rightarrow> camera_lib \<Rightarrow> Pinhole \<Rightarrow> IndexT \<Rightarrow> (IndexT \<times> CheckerDetector) list \<Rightarrow> dbl \<Rightarrow>
   (IndexT \<times> View) list \<Rightarrow> nat \<times> nat \<times> (IndexT \<times> Mat) list \<Rightarrow>
   (nat \<times> nat \<times> (IndexT \<times> Mat) list) run" where
  "gather_homographies L C cameraPinhole intrinsicId' boardsAllImages squareSize [] acc = Done acc"
| "gather_homographies L C cameraPinhole intrinsicId' boardsAllImages squareSize (pv # rest) acc =
     (if intrinsicId (snd pv) \<noteq> intrinsicId'
      then gather_homographies L C cameraPinhole intrinsicId' boardsAllImages squareSize rest acc
      else
        (let detector = detector_of boardsAllImages (fst pv) in
         if length (getBoards detector) \<noteq> 1
         then gather_homographies L C cameraPinhole intrinsicId' boardsAllImages squareSize rest acc
         else
           (let b = hd (getBoards detector);
                max_checkerboard_w = max (cols b) (fst acc);
                max_checkerboard_h = max (rows b) (fst (snd acc))
            in case homography_points C cameraPinhole (getCorners detector) squareSize b
                      (cells b) ([], []) of
                 UB \<Rightarrow> UB
               | Throws \<Rightarrow> Throws
               | Done (refpts, points) \<Rightarrow>
                   (let vec_inliers = fst (ACRANSAC_homography L refpts points
                                             (cam_w cameraPinhole) (cam_h cameraPinhole));
                        H = snd (ACRANSAC_homography L refpts points
                                   (cam_w cameraPinhole) (cam_h cameraPinhole))
                    in if length vec_inliers < 10
                       then gather_homographies L C cameraPinhole intrinsicId' boardsAllImages
                              squareSize rest
                              (max_checkerboard_w, max_checkerboard_h, snd (snd acc))
                       else gather_homographies L C cameraPinhole intrinsicId' boardsAllImages
                              squareSize rest
                              (max_checkerboard_w, max_checkerboard_h,
                               map_set (snd (snd acc)) (fst pv) H)))))"

subsection \<open>Landmarks, poses and observations\<close>

text \<open>\<^verbatim>\<open>indices(i, j)\<close> for the matrix \<^verbatim>\<open>indices\<close> of \<open>w\<close> columns, which the first
  intrinsic fills row by row with 0, 1, 2, ...\<close>

definition indices :: "nat \<Rightarrow> nat \<Rightarrow> nat \<Rightarrow> IndexT" where
  "indices w i j = word_of_nat (i * w + j)"

definition grid_cells :: "nat \<Rightarrow> nat \<Rightarrow> (nat \<times> nat) list" where
  "grid_cells h w = concat (map (\<lambda>i. map (\<lambda>j. (i, j)) [0..<w]) [0..<h])"

definition create_landmarks ::
  "dbl \<Rightarrow> nat \<Rightarrow> nat \<Rightarrow> (IndexT \<times> Landmark) list \<Rightarrow> (IndexT \<times> Landmark) list" where
  "create_landmarks squareSize h w lms =
     foldl (\<lambda>m (i, j). map_set m (indices w i j)
              \<lparr>lm_X = (dmul squareSize (Fin (real j)), dmul squareSize (Fin (real i)), Fin 0),
               lm_descType = SIFT, observations = []\<rparr>)
       lms (grid_cells h w)"

definition initial_poses ::
  "calib_lib \<Rightarrow> Mat \<Rightarrow> (IndexT \<times> Mat) list \<Rightarrow> (IndexT \<times> CameraPose) list \<Rightarrow>
   (IndexT \<times> CameraPose) list" where
  "initial_poses L A homographies ps =
     foldl (\<lambda>m (k, H). map_set m k (initial_pose L A H)) ps homographies"

text \<open>\<^verbatim>\<open>sfmData.getLandmarks()[k]\<close> inserts a default-constructed landmark for a
  missing key (its coordinates are not initialised in C++; they are zero here).\<close>

definition Landmark_default :: Landmark where
  "Landmark_default = \<lparr>lm_X = Zero3, lm_descType = UNINITIALIZED, observations = []\<rparr>"

definition landmark_at :: "(IndexT \<times> Landmark) list \<Rightarrow> IndexT \<Rightarrow> Landmark" where
  "landmark_at lms k = (case map_of lms k of Some l \<Rightarrow> l | None \<Rightarrow> Landmark_default)"

text \<open>The observations of one view (``Get residuals''). The three points computed from
  \<open>p\<close> through the camera are not used by the code and are left out.\<close>

definition add_observation ::
  "CheckerBoardCorner list \<Rightarrow> IndexT \<Rightarrow> IndexT \<Rightarrow> IndexT \<Rightarrow> (IndexT \<times> Landmark) list \<Rightarrow>
   (IndexT \<times> Landmark) list" where
  "add_observation corners viewId' idxlandmark idxcorner lms =
     (let p = corner_center (corners ! unat idxcorner);
          obs = \<lparr>obs_x = p, obs_id_feat = idxlandmark, obs_scale = Fin 1\<rparr>;
          l = landmark_at lms idxlandmark
      in map_set lms idxlandmark (l\<lparr>observations := map_set (observations l) viewId' obs\<rparr>))"

fun view_observations ::
  "CheckerBoardCorner list \<Rightarrow> nat \<Rightarrow> IndexT \<Rightarrow> CheckerBoard \<Rightarrow> (nat \<times> nat) list \<Rightarrow>
   (IndexT \<times> Landmark) list \<Rightarrow> (IndexT \<times> Landmark) list run" where
  "view_observations corners w viewId' b [] lms = Done lms"
| "view_observations corners w viewId' b ((i, j) # rest) lms =
     (if indices w i j = UndefinedIndexT then view_observations corners w viewId' b rest lms
      else if cell b i j = UndefinedIndexT then view_observations corners w viewId' b rest lms
      else if unat (cell b i j) < length corners
      then view_observations corners w viewId' b rest
             (add_observation corners viewId' (indices w i j) (cell b i j) lms)
      else UB)"

fun add_observations ::
  "(IndexT \<times> CheckerDetector) list \<Rightarrow> nat \<Rightarrow> (IndexT \<times> Mat) list \<Rightarrow>
   (IndexT \<times> Landmark) list \<Rightarrow> (IndexT \<times> Landmark) list run" where
  "add_observations boardsAllImages w [] lms = Done lms"
| "add_observations boardsAllImages w (pH # rest) lms =
     (let detector = detector_of boardsAllImages (fst pH);
          b = hd (getBoards detector)
      in case view_observations (getCorners detector) w (fst pH) b (cells b) lms of
           UB \<Rightarrow> UB
         | Throws \<Rightarrow> Throws
         | Done lms' \<Rightarrow> add_observations boardsAllImages w rest lms')"

subsection \<open>The function\<close>

text \<open>The state of the loop over the intrinsics: the scene, the size of \<^verbatim>\<open>indices\<close>
  and the flag \<^verbatim>\<open>first\<close>.\<close>

record basic_state =
  bs_sfmData :: SfMData
  global_max_checkerboard_w :: nat
  global_max_checkerboard_h :: nat
  bs_first :: bool

datatype basic_exit = ReturnedFalse SfMData | NextIntrinsic basic_state

definition basic_options :: "ERefineOptions list" where
  "basic_options = [REFINE_ROTATION, REFINE_TRANSLATION, REFINE_INTRINSICS_ALL]"

text \<open>The body of the loop over the intrinsics, for a pinhole intrinsic.\<close>

definition calibrate_intrinsic ::
  "calib_lib \<Rightarrow> camera_lib \<Rightarrow> (IndexT \<times> CheckerDetector) list \<Rightarrow> dbl \<Rightarrow> IndexT \<Rightarrow> Pinhole \<Rightarrow>
   basic_state \<Rightarrow> basic_exit run" where
  "calibrate_intrinsic L C boardsAllImages squareSize intrinsicId' cameraPinhole st =
     (case gather_homographies L C cameraPinhole intrinsicId' boardsAllImages squareSize
             (views (bs_sfmData st)) (0, 0, []) of
        UB \<Rightarrow> UB
      | Throws \<Rightarrow> Throws
      | Done (max_checkerboard_w, max_checkerboard_h, homographies) \<Rightarrow>
          (let A = zhang_A L homographies;
               s1 = update_pinhole intrinsicId' (zhang_solve L C homographies cameraPinhole)
                      (bs_sfmData st);
               s2 = (if bs_first st
                     then s1\<lparr>landmarks := create_landmarks squareSize max_checkerboard_h
                                            max_checkerboard_w (landmarks s1)\<rparr>
                     else s1);
               gw = (if bs_first st then max_checkerboard_w else global_max_checkerboard_w st);
               gh = (if bs_first st then max_checkerboard_h else global_max_checkerboard_h st)
           in if \<not> bs_first st \<and> (gh \<noteq> max_checkerboard_h \<or> gw \<noteq> max_checkerboard_w)
              then Done (ReturnedFalse s2)
              else
                (let s3 = s2\<lparr>poses := initial_poses L A homographies (poses s2)\<rparr> in
                 case add_observations boardsAllImages gw homographies (landmarks s3) of
                   UB \<Rightarrow> UB
                 | Throws \<Rightarrow> Throws
                 | Done lms \<Rightarrow>
                     (let s4 = s3\<lparr>landmarks := lms\<rparr>;
                          r = adjust L None basic_options s4;
                          s5 = apply_adjust r s4
                      in if \<not> ba_ok r then Done (ReturnedFalse s5)
                         else Done (NextIntrinsic
                                \<lparr>bs_sfmData = s5, global_max_checkerboard_w = gw,
                                 global_max_checkerboard_h = gh, bs_first = False\<rparr>)))))"

text \<open>
  The loop over the keys of the intrinsics. The objects are changed in place by the
  refinements, so each is read from the scene when its turn comes. An intrinsic that is
  not a pinhole ends the function with \<^verbatim>\<open>false\<close>.
\<close>

fun intrinsics_loop ::
  "calib_lib \<Rightarrow> camera_lib \<Rightarrow> (IndexT \<times> CheckerDetector) list \<Rightarrow> dbl \<Rightarrow> IndexT list \<Rightarrow>
   basic_state \<Rightarrow> (bool \<times> SfMData) run" where
  "intrinsics_loop L C boardsAllImages squareSize [] st = Done (True, bs_sfmData st)"
| "intrinsics_loop L C boardsAllImages squareSize (k # rest) st =
     (case map_of (intrinsics (bs_sfmData st)) k of
        Some (IsPinhole cameraPinhole) \<Rightarrow>
          (case calibrate_intrinsic L C boardsAllImages squareSize k cameraPinhole st of
             UB \<Rightarrow> UB
           | Throws \<Rightarrow> Throws
           | Done (ReturnedFalse s) \<Rightarrow> Done (False, s)
           | Done (NextIntrinsic st') \<Rightarrow> intrinsics_loop L C boardsAllImages squareSize rest st')
      | _ \<Rightarrow> Done (False, bs_sfmData st))"

text \<open>
  \<^verbatim>\<open>EXIT_FAILURE\<close> is the macro of \<^verbatim>\<open><cstdlib>\<close>, an \<^verbatim>\<open>int\<close> that is not zero
  (1 on the usual platforms). A \<^verbatim>\<open>return\<close> of an \<^verbatim>\<open>int\<close> from a function that returns
  \<^verbatim>\<open>bool\<close> converts it: zero becomes \<^verbatim>\<open>false\<close>, every other value \<^verbatim>\<open>true\<close>.
\<close>

definition EXIT_FAILURE :: int where
  "EXIT_FAILURE = 1"

definition bool_of_int :: "int \<Rightarrow> bool" where
  "bool_of_int n = (n \<noteq> 0)"

text \<open>\<^verbatim>\<open>process_basic\<close>: the returned boolean and the scene as the function leaves it.\<close>

definition process_basic ::
  "calib_lib \<Rightarrow> camera_lib \<Rightarrow> SfMData \<Rightarrow> (IndexT \<times> CheckerDetector) list \<Rightarrow> dbl \<Rightarrow>
   (bool \<times> SfMData) run" where
  "process_basic L C sfmData boardsAllImages squareSize =
     (if length boardsAllImages < 2 then Done (bool_of_int EXIT_FAILURE, sfmData)
      else intrinsics_loop L C boardsAllImages squareSize (map fst (intrinsics sfmData))
             \<lparr>bs_sfmData = sfmData, global_max_checkerboard_w = 0,
              global_max_checkerboard_h = 0, bs_first = True\<rparr>)"

section \<open>A small instance\<close>

text \<open>
  Concrete libraries, cameras, views and boards, on which the theorems below are
  instantiated. The camera has no distortion: its point maps are the identity, its
  calibration matrix is made of its scale and its offset, and \<open>setK\<close> reads them back.
\<close>

definition toy_camera_lib :: camera_lib where
  "toy_camera_lib =
     \<lparr>get_ud_pixel = (\<lambda>cam p. p), ima2cam = (\<lambda>cam p. p), cam2ima = (\<lambda>cam p. p),
      removeDistortion = (\<lambda>cam p. p),
      getK = (\<lambda>cam. [[fst (cam_scale cam), Fin 0, fst (cam_offset cam)],
                      [Fin 0, snd (cam_scale cam), snd (cam_offset cam)],
                      [Fin 0, Fin 0, Fin 1]]),
      setK = (\<lambda>A cam. cam\<lparr>cam_scale := (mat_at A 0 0, mat_at A 1 1),
                              cam_offset := (mat_at A 0 2, mat_at A 1 2)\<rparr>),
      getPrincipalPoint = cam_offset\<rparr>"

definition toy_pinhole :: Pinhole where
  "toy_pinhole =
     \<lparr>cam_w = 100, cam_h = 100, cam_scale = (Fin 1, Fin 1), cam_offset = (Fin 0, Fin 0),
      cam_distortion = None, cam_ratioLocked = False\<rparr>"

definition toy_view :: "IndexT \<Rightarrow> View" where
  "toy_view i = \<lparr>viewId = i, poseId = i, intrinsicId = 0, width = 100, height = 100\<rparr>"

definition toy_scene :: SfMData where
  "toy_scene =
     \<lparr>views = [(7, toy_view 7), (8, toy_view 8)], intrinsics = [(0, IsPinhole toy_pinhole)],
      poses = [], landmarks = []\<rparr>"




text \<open>
  The libraries of the calibration: every point is an inlier, the poses are the identity,
  the homographies are the identity, the refinement succeeds and changes nothing, and
  the singular value decomposition gives the sixth unit vector, which the matrix \<open>V\<close> of
  identity homographies maps to zero.
\<close>

definition toy_calib_lib :: calib_lib where
  "toy_calib_lib =
     \<lparr>ACRANSAC_resection = (\<lambda>Mcur Mref K. ([0..<length Mcur], [])),
      ACRANSAC_homography = (\<lambda>Mref Mcur w h. ([0..<length Mcur], Identity3)),
      KRt_from_P = (\<lambda>P. (Identity3, Identity3, Zero3)),
      svd_last_column = (\<lambda>V. [Fin 0, Fin 0, Fin 0, Fin 0, Fin 0, Fin 1]),
      initial_pose = (\<lambda>A H. CameraPose_default),
      adjust = (\<lambda>distance options s.
                  \<lparr>ba_ok = True, ba_poses = poses s, ba_intrinsic = (\<lambda>k p. p),
                   ba_landmarks = landmarks s\<rparr>)\<rparr>"

text \<open>The same with robust estimators that find no inlier.\<close>

definition toy_calib_lib_no_inliers :: calib_lib where
  "toy_calib_lib_no_inliers =
     toy_calib_lib\<lparr>ACRANSAC_resection := (\<lambda>Mcur Mref K. ([], [])),
                   ACRANSAC_homography := (\<lambda>Mref Mcur w h. ([], Identity3))\<rparr>"

text \<open>A board of 5 rows and 6 columns with all its 30 corners, a board of 2 rows and
  2 columns whose last cell has no detection, and the 30 corners on a grid of 10 pixels.\<close>

definition toy_board :: CheckerBoard where
  "toy_board = \<lparr>rows = 5, cols = 6, cell = (\<lambda>i j. word_of_nat (i * 6 + j))\<rparr>"

definition toy_small_board :: CheckerBoard where
  "toy_small_board =
     \<lparr>rows = 2, cols = 2,
      cell = (\<lambda>i j. if i = 1 \<and> j = 1 then UndefinedIndexT else word_of_nat (i * 6 + j))\<rparr>"

definition toy_corners :: "CheckerBoardCorner list" where
  "toy_corners =
     map (\<lambda>k. \<lparr>corner_center = (Fin (real (10 * (k mod 6))), Fin (real (10 * (k div 6))))\<rparr>)
       [0..<30]"



text \<open>The detections of one image: the large board alone, and the large board with the
  small one.\<close>

definition toy_detector :: CheckerDetector where
  "toy_detector = \<lparr>getBoards = [toy_board], getCorners = toy_corners\<rparr>"

definition toy_detector2 :: CheckerDetector where
  "toy_detector2 = \<lparr>getBoards = [toy_small_board, toy_board], getCorners = toy_corners\<rparr>"


text \<open>A board of 3 rows and 4 columns with all its 12 corners, and its detection.\<close>

definition toy_mid_board :: CheckerBoard where
  "toy_mid_board = \<lparr>rows = 3, cols = 4, cell = (\<lambda>i j. word_of_nat (i * 6 + j))\<rparr>"

definition toy_detector3 :: CheckerDetector where
  "toy_detector3 = \<lparr>getBoards = [toy_mid_board], getCorners = toy_corners\<rparr>"

section \<open>The histogram: one counter per added value\<close>











section \<open>The pair angle: the median needs a kept track\<close>






section \<open>Nested boards: the loop over the boards\<close>

lemma map_of_map_set: "map_of (map_set m k v) k = Some v"
  by (induction m) auto

lemma add_points_in_range:
  assumes "list_all (\<lambda>(i, j). cell board i j = UndefinedIndexT \<or> unat (cell board i j) < length corners) cs"
  shows "\<exists>lms refpts points.
           add_points C pinhole corners usp board lss idx cs acc = Done (lms, refpts, points) \<and>
           length points = length (snd (snd acc)) +
             length (filter (\<lambda>(i, j). cell board i j \<noteq> UndefinedIndexT) cs)"
  using assms
proof (induction cs arbitrary: acc)
  case Nil
  then show ?case by (cases acc) auto
next
  case (Cons c cs)
  obtain i j where c: "c = (i, j)" by (cases c)
  from Cons.prems have rest: "list_all (\<lambda>(i, j). cell board i j = UndefinedIndexT \<or> unat (cell board i j) < length corners) cs"
    by simp
  show ?case
  proof (cases "cell board i j = UndefinedIndexT")
    case True
    then show ?thesis using Cons.IH[OF rest, of acc] c by simp
  next
    case False
    with Cons.prems c have r: "unat (cell board i j) < length corners" by simp
    obtain lms refpts points where
      "add_points C pinhole corners usp board lss idx cs
         (add_point C pinhole corners usp board lss idx i j acc) = Done (lms, refpts, points)"
      and "length points = length (snd (snd (add_point C pinhole corners usp board lss idx i j acc))) +
             length (filter (\<lambda>(i, j). cell board i j \<noteq> UndefinedIndexT) cs)"
      using Cons.IH[OF rest, of "add_point C pinhole corners usp board lss idx i j acc"] by blast
    then show ?thesis using False r c
      by (simp add: add_point_def Let_def)
  qed
qed

lemma add_points_out_of_range:
  assumes "\<not> list_all (\<lambda>(i, j). cell board i j = UndefinedIndexT \<or> unat (cell board i j) < length corners) cs"
  shows "add_points C pinhole corners usp board lss idx cs acc = UB"
  using assms
proof (induction cs arbitrary: acc)
  case Nil
  then show ?case by simp
next
  case (Cons c cs)
  obtain i j where c: "c = (i, j)" by (cases c)
  show ?case
  proof (cases "cell board i j = UndefinedIndexT \<or> unat (cell board i j) < length corners")
    case True
    with Cons.prems c have "\<not> list_all (\<lambda>(i, j). cell board i j = UndefinedIndexT \<or> unat (cell board i j) < length corners) cs"
      by simp
    from Cons.IH[OF this] show ?thesis using True c by auto
  next
    case False
    then show ?thesis using c by simp
  qed
qed


lemma add_points_Done_iff:
  "corners_in_range corners board \<Longrightarrow>
   \<exists>lms refpts points.
     add_points C pinhole corners usp board lss idx (cells board) (lms0, [], []) =
       Done (lms, refpts, points) \<and> length points = count_points board"
  using add_points_in_range[of board corners "cells board" C pinhole usp lss idx "(lms0, [], [])"]
  by (simp add: corners_in_range_def count_points_def)

lemma add_points_UB_iff:
  "\<not> corners_in_range corners board \<Longrightarrow>
   add_points C pinhole corners usp board lss idx (cells board) acc = UB"
  by (simp add: corners_in_range_def add_points_out_of_range)

lemma board_step_skip:
  "count_points board < 30 \<Longrightarrow>
   board_step L C pinhole view corners usp st board = Done (Finished st)"
  by (simp add: board_step_def)

lemma board_step_out_of_range:
  "\<not> count_points board < 30 \<Longrightarrow> \<not> corners_in_range corners board \<Longrightarrow>
   board_step L C pinhole view corners usp st board = UB"
  by (simp add: board_step_def add_points_UB_iff)

lemma board_step_accept:
  assumes big: "\<not> count_points board < 30" and rng: "corners_in_range corners board"
  shows "\<exists>lms refpts points.
          add_points C pinhole corners usp board (localSquareSize st)
            (idx_checkerboard_valid st) (cells board) (landmarks (gs_sfmData st), [], []) =
            Done (lms, refpts, points) \<and>
          length points = count_points board \<and>
          (if length (fst (ACRANSAC_resection L points refpts (getK C pinhole))) < 10
           then board_step L C pinhole view corners usp st board =
                  Done (Aborted ((gs_sfmData st)\<lparr>landmarks := lms\<rparr>))
           else \<exists>st'. board_step L C pinhole view corners usp st board = Done (Finished st') \<and>
                  idx_checkerboard_valid st' = idx_checkerboard_valid st + 1 \<and>
                  landmarks (gs_sfmData st') = lms \<and>
                  map_of (poses (gs_sfmData st')) (word_of_nat (idx_checkerboard_valid st)) \<noteq> None \<and>
                  map_of (views (gs_sfmData st')) (word_of_nat (idx_checkerboard_valid st)) =
                    Some (view\<lparr>viewId := word_of_nat (idx_checkerboard_valid st),
                               poseId := word_of_nat (idx_checkerboard_valid st)\<rparr>))"
proof -
  obtain lms refpts points where
    ap: "add_points C pinhole corners usp board (localSquareSize st)
          (idx_checkerboard_valid st) (cells board) (landmarks (gs_sfmData st), [], []) =
          Done (lms, refpts, points)"
    and len: "length points = count_points board"
    using add_points_Done_iff[OF rng] by blast
  show ?thesis using big ap len
    by (simp add: board_step_def Let_def map_of_map_set)
qed

text \<open>
  Claim C6: a board with fewer than 30 defined cells is skipped, and the state of the loop
  (the scene with its landmarks, poses and views, the acceptance index and the square
  size) is what it was. A board with at least 30 defined cells is accepted: when its
  corners exist (otherwise the code reads outside the list of corners), it gives one
  landmark and one point for each defined cell, and then either the pose estimation has
  fewer than 10 inliers and the function returns \<^verbatim>\<open>false\<close>, or the pose and the
  synthetic view are stored under the acceptance index, which advances by one.
\<close>

theorem board_step_threshold:
  "if count_points board < 30
   then board_step L C pinhole view corners usp st board = Done (Finished st)
   else if \<not> corners_in_range corners board
   then board_step L C pinhole view corners usp st board = UB
   else \<exists>lms refpts points.
          add_points C pinhole corners usp board (localSquareSize st)
            (idx_checkerboard_valid st) (cells board) (landmarks (gs_sfmData st), [], []) =
            Done (lms, refpts, points) \<and>
          length points = count_points board \<and>
          (if length (fst (ACRANSAC_resection L points refpts (getK C pinhole))) < 10
           then board_step L C pinhole view corners usp st board =
                  Done (Aborted ((gs_sfmData st)\<lparr>landmarks := lms\<rparr>))
           else \<exists>st'. board_step L C pinhole view corners usp st board = Done (Finished st') \<and>
                  idx_checkerboard_valid st' = idx_checkerboard_valid st + 1 \<and>
                  landmarks (gs_sfmData st') = lms \<and>
                  map_of (poses (gs_sfmData st')) (word_of_nat (idx_checkerboard_valid st)) \<noteq> None \<and>
                  map_of (views (gs_sfmData st')) (word_of_nat (idx_checkerboard_valid st)) =
                    Some (view\<lparr>viewId := word_of_nat (idx_checkerboard_valid st),
                               poseId := word_of_nat (idx_checkerboard_valid st)\<rparr>))"
proof (cases "count_points board < 30")
  case True
  then show ?thesis by (simp add: board_step_skip)
next
  case big: False
  show ?thesis
  proof (cases "corners_in_range corners board")
    case False
    then show ?thesis using big by (simp add: board_step_out_of_range)
  next
    case True
    from board_step_accept[OF big True, of C pinhole usp st L view]
    show ?thesis using big True by simp
  qed
qed

lemma board_step_Finished:
  assumes "board_step L C pinhole view corners usp st board = Done (Finished st')"
  shows "idx_checkerboard_valid st' =
           idx_checkerboard_valid st + (if 30 \<le> count_points board then 1 else 0) \<and>
         localSquareSize st' =
           (if 30 \<le> count_points board \<and> idx_checkerboard_valid st < 2
            then dmul (localSquareSize st) (Fin 2) else localSquareSize st)"
proof (cases "count_points board < 30")
  case True
  then show ?thesis using assms by (simp add: board_step_def)
next
  case False
  then show ?thesis using assms
    by (auto simp add: board_step_def Let_def split: run.splits prod.splits if_splits)
qed

lemma boards_loop_invariant:
  assumes "boards_loop L C pinhole view corners usp st0 bs = Done (Finished st)"
    and "localSquareSize st0 = Fin (2 ^ min (idx_checkerboard_valid st0) 2 / 4)"
  shows "idx_checkerboard_valid st =
           idx_checkerboard_valid st0 + length (filter (\<lambda>b. 30 \<le> count_points b) bs) \<and>
         localSquareSize st = Fin (2 ^ min (idx_checkerboard_valid st) 2 / 4)"
  using assms
proof (induction bs arbitrary: st0)
  case Nil
  then show ?case by simp
next
  case (Cons b bs)
  from Cons.prems(1) obtain st1 where
    step: "board_step L C pinhole view corners usp st0 b = Done (Finished st1)"
    and rest: "boards_loop L C pinhole view corners usp st1 bs = Done (Finished st)"
    by (auto split: run.splits loop_exit.splits)
  note s = board_step_Finished[OF step]
  have inv1: "localSquareSize st1 = Fin (2 ^ min (idx_checkerboard_valid st1) 2 / 4)"
  proof (cases "30 \<le> count_points b \<and> idx_checkerboard_valid st0 < 2")
    case True
    then have "idx_checkerboard_valid st0 = 0 \<or> idx_checkerboard_valid st0 = 1" by auto
    then show ?thesis using s True Cons.prems(2) by auto
  next
    case False
    then show ?thesis using s Cons.prems(2) by (auto simp add: min_def)
  qed
  from Cons.IH[OF rest inv1] s show ?case by auto
qed

text \<open>The loop runs to its end when the corners of the accepted boards exist and the
  pose estimation keeps at least 10 inliers of 10 or more points.\<close>

lemma boards_loop_Finished:
  assumes rng: "\<forall>b \<in> set bs. corners_in_range corners b"
    and inl: "\<forall>Mcur Mref K. 10 \<le> length Mcur \<longrightarrow>
                10 \<le> length (fst (ACRANSAC_resection L Mcur Mref K))"
  shows "\<exists>st. boards_loop L C pinhole view corners usp st0 bs = Done (Finished st)"
  using rng
proof (induction bs arbitrary: st0)
  case Nil
  then show ?case by simp
next
  case (Cons b bs)
  have "\<exists>st1. board_step L C pinhole view corners usp st0 b = Done (Finished st1)"
  proof (cases "count_points b < 30")
    case True
    then show ?thesis by (simp add: board_step_skip)
  next
    case False
    from Cons.prems have r: "corners_in_range corners b" by simp
    from board_step_accept[OF False r, of C pinhole usp st0 L view]
    obtain lms refpts points where
      len: "length points = count_points b" and
      c: "if length (fst (ACRANSAC_resection L points refpts (getK C pinhole))) < 10
          then board_step L C pinhole view corners usp st0 b =
                 Done (Aborted ((gs_sfmData st0)\<lparr>landmarks := lms\<rparr>))
          else \<exists>st'. board_step L C pinhole view corners usp st0 b = Done (Finished st') \<and>
                 idx_checkerboard_valid st' = idx_checkerboard_valid st0 + 1 \<and>
                 landmarks (gs_sfmData st') = lms \<and>
                 map_of (poses (gs_sfmData st')) (word_of_nat (idx_checkerboard_valid st0)) \<noteq> None \<and>
                 map_of (views (gs_sfmData st')) (word_of_nat (idx_checkerboard_valid st0)) =
                   Some (view\<lparr>viewId := word_of_nat (idx_checkerboard_valid st0),
                              poseId := word_of_nat (idx_checkerboard_valid st0)\<rparr>)"
      by blast
    have "10 \<le> length points" using len False by simp
    with inl have "\<not> length (fst (ACRANSAC_resection L points refpts (getK C pinhole))) < 10"
      by (simp add: not_less)
    with c show ?thesis by auto
  qed
  then obtain st1 where
    s: "board_step L C pinhole view corners usp st0 b = Done (Finished st1)" by blast
  from Cons.prems have "\<forall>b \<in> set bs. corners_in_range corners b" by simp
  from Cons.IH[OF this, of st1] s show ?case by simp
qed

lemma toy_all_inliers:
  "\<forall>Mcur Mref K. 10 \<le> length Mcur \<longrightarrow>
     10 \<le> length (fst (ACRANSAC_resection toy_calib_lib Mcur Mref K))"
  by (simp add: toy_calib_lib_def)

lemma toy_board_in_range: "corners_in_range toy_corners toy_board"
  by code_simp

lemma toy_small_board_in_range: "corners_in_range toy_corners toy_small_board"
  by code_simp

lemma toy_board_count: "count_points toy_board = 30"
  by code_simp

lemma toy_small_board_count: "count_points toy_small_board = 3"
  by code_simp

theorem board_step_threshold_witness:
  "count_points toy_small_board = 3 \<and>
   board_step toy_calib_lib toy_camera_lib toy_pinhole (toy_view 7) toy_corners False
     (initial_grid_state toy_scene) toy_small_board = Done (Finished (initial_grid_state toy_scene)) \<and>
   count_points toy_board = 30 \<and>
   map_option idx_checkerboard_valid
     (finished_state (board_step toy_calib_lib toy_camera_lib toy_pinhole (toy_view 7) toy_corners
        False (initial_grid_state toy_scene) toy_board)) = Some 1"
proof -
  have small: "board_step toy_calib_lib toy_camera_lib toy_pinhole (toy_view 7) toy_corners False
     (initial_grid_state toy_scene) toy_small_board = Done (Finished (initial_grid_state toy_scene))"
    using board_step_threshold[of toy_small_board toy_calib_lib toy_camera_lib toy_pinhole
        "toy_view 7" toy_corners False "initial_grid_state toy_scene"]
    by (simp add: toy_small_board_count)
  from board_step_threshold[of toy_board toy_calib_lib toy_camera_lib toy_pinhole
        "toy_view 7" toy_corners False "initial_grid_state toy_scene"]
  obtain lms refpts points where
    len: "length points = count_points toy_board"
    and c: "if length (fst (ACRANSAC_resection toy_calib_lib points refpts
                  (getK toy_camera_lib toy_pinhole))) < 10
        then board_step toy_calib_lib toy_camera_lib toy_pinhole (toy_view 7) toy_corners False
               (initial_grid_state toy_scene) toy_board =
               Done (Aborted ((gs_sfmData (initial_grid_state toy_scene))\<lparr>landmarks := lms\<rparr>))
        else \<exists>st'. board_step toy_calib_lib toy_camera_lib toy_pinhole (toy_view 7) toy_corners
               False (initial_grid_state toy_scene) toy_board = Done (Finished st') \<and>
               idx_checkerboard_valid st' =
                 idx_checkerboard_valid (initial_grid_state toy_scene) + 1 \<and>
               landmarks (gs_sfmData st') = lms \<and>
               map_of (poses (gs_sfmData st'))
                 (word_of_nat (idx_checkerboard_valid (initial_grid_state toy_scene))) \<noteq> None \<and>
               map_of (views (gs_sfmData st'))
                 (word_of_nat (idx_checkerboard_valid (initial_grid_state toy_scene))) =
                 Some ((toy_view 7)\<lparr>viewId := word_of_nat
                          (idx_checkerboard_valid (initial_grid_state toy_scene)),
                        poseId := word_of_nat
                          (idx_checkerboard_valid (initial_grid_state toy_scene))\<rparr>)"
    by (auto simp add: toy_board_count toy_board_in_range)
  have "\<not> length (fst (ACRANSAC_resection toy_calib_lib points refpts
                  (getK toy_camera_lib toy_pinhole))) < 10"
    using len by (simp add: toy_calib_lib_def toy_board_count)
  with c obtain st' where
    "board_step toy_calib_lib toy_camera_lib toy_pinhole (toy_view 7) toy_corners
       False (initial_grid_state toy_scene) toy_board = Done (Finished st')"
    and "idx_checkerboard_valid st' = idx_checkerboard_valid (initial_grid_state toy_scene) + 1"
    by auto
  with small show ?thesis
    by (simp add: toy_small_board_count toy_board_count initial_grid_state_def)
qed

text \<open>
  Claim C3, as it is written, gives the first two accepted boards the same size. The
  first accepted board is processed with the size 1/4 of the initial state, the second
  with the size 1/2 the loop has after one accepted board.
\<close>

theorem second_board_size_doubled:
  "localSquareSize (initial_grid_state toy_scene) = Fin (1 / 4) \<and>
   map_option idx_checkerboard_valid
     (finished_state (boards_loop toy_calib_lib toy_camera_lib toy_pinhole (toy_view 7) toy_corners
        False (initial_grid_state toy_scene) [toy_board])) = Some 1 \<and>
   map_option localSquareSize
     (finished_state (boards_loop toy_calib_lib toy_camera_lib toy_pinhole (toy_view 7) toy_corners
        False (initial_grid_state toy_scene) [toy_board])) = Some (Fin (1 / 2))"
proof -
  let ?r = "boards_loop toy_calib_lib toy_camera_lib toy_pinhole (toy_view 7) toy_corners
        False (initial_grid_state toy_scene) [toy_board]"
  have "\<forall>b \<in> set [toy_board]. corners_in_range toy_corners b"
    by (simp add: toy_board_in_range)
  from boards_loop_Finished[OF this toy_all_inliers]
  obtain st where r: "?r = Done (Finished st)" by blast
  have i: "localSquareSize (initial_grid_state toy_scene) =
             Fin (2 ^ min (idx_checkerboard_valid (initial_grid_state toy_scene)) 2 / 4)"
    by (simp add: initial_grid_state_def)
  from boards_loop_invariant[OF r i]
  have "idx_checkerboard_valid st = 1" and "localSquareSize st = Fin (1 / 2)"
    by (simp_all add: toy_board_count initial_grid_state_def)
  with r show ?thesis by (simp add: initial_grid_state_def)
qed

text \<open>
  Claim C3, amended: when the loop has processed the boards \<open>pre\<close>, the acceptance index is
  the number \<open>n\<close> of boards of \<open>pre\<close> with at least 30 defined cells, and the square size,
  with which the next accepted board is processed, is \<open>2 ^ min n 2 / 4\<close>. The sizes of the
  accepted boards, in the order of their acceptance, are 1/4, 1/2, 1, 1, 1, ...: the size
  starts from the constant 1/4 (the parameter \<^verbatim>\<open>squareSize\<close> is not used), doubles after
  each of the first two accepted boards and stays the same from the third on.
\<close>

theorem boards_loop_square_size:
  assumes "boards_loop L C pinhole view corners usp (initial_grid_state sfmData) pre =
             Done (Finished st)"
  shows "idx_checkerboard_valid st = length (filter (\<lambda>b. 30 \<le> count_points b) pre) \<and>
         localSquareSize st = Fin (2 ^ min (idx_checkerboard_valid st) 2 / 4)"
  using boards_loop_invariant[OF assms] by (simp add: initial_grid_state_def)


theorem boards_loop_square_size_witness:
  "map_option idx_checkerboard_valid
     (finished_state (boards_loop toy_calib_lib toy_camera_lib toy_pinhole (toy_view 7) toy_corners
        False (initial_grid_state toy_scene) [toy_board, toy_small_board, toy_board, toy_board]))
     = Some 3 \<and>
   map_option localSquareSize
     (finished_state (boards_loop toy_calib_lib toy_camera_lib toy_pinhole (toy_view 7) toy_corners
        False (initial_grid_state toy_scene) [toy_board, toy_small_board, toy_board, toy_board]))
     = Some (Fin 1)"
proof -
  let ?r = "boards_loop toy_calib_lib toy_camera_lib toy_pinhole (toy_view 7) toy_corners
        False (initial_grid_state toy_scene) [toy_board, toy_small_board, toy_board, toy_board]"
  have "\<forall>b \<in> set [toy_board, toy_small_board, toy_board, toy_board].
          corners_in_range toy_corners b"
    by (simp add: toy_board_in_range toy_small_board_in_range)
  from boards_loop_Finished[OF this toy_all_inliers]
  obtain st where r: "?r = Done (Finished st)" by blast
  from boards_loop_square_size[OF r]
  have "idx_checkerboard_valid st = 3" and "localSquareSize st = Fin 1"
    by (simp_all add: toy_board_count toy_small_board_count)
  with r show ?thesis by simp
qed

section \<open>Nested boards: the order of the boards\<close>

subsection \<open>The order of doubles that are not NaN\<close>

lemma dle_trans:
  "a \<noteq> NaN \<Longrightarrow> b \<noteq> NaN \<Longrightarrow> c \<noteq> NaN \<Longrightarrow> \<not> dless b a \<Longrightarrow> \<not> dless c b \<Longrightarrow> \<not> dless c a"
  by (cases a; cases b; cases c) simp_all

lemma dless_asym: "dless a b \<Longrightarrow> \<not> dless b a"
  by (cases a; cases b) simp_all

lemma dless_irrefl: "\<not> dless a a"
  by (cases a) simp_all

lemma dless_dle_trans:
  "a \<noteq> NaN \<Longrightarrow> b \<noteq> NaN \<Longrightarrow> c \<noteq> NaN \<Longrightarrow> dless a b \<Longrightarrow> \<not> dless c b \<Longrightarrow> \<not> dless c a"
  by (cases a; cases b; cases c) simp_all

lemma square_not_NaN: "a \<noteq> NaN \<Longrightarrow> \<exists>r. (dmul a a = Fin r \<and> 0 \<le> r) \<or> dmul a a = PInf"
  by (cases a) simp_all

lemma norm2_not_NaN:
  assumes "a \<noteq> NaN" "b \<noteq> NaN"
  shows "norm2 (a, b) \<noteq> NaN"
proof -
  from square_not_NaN[OF assms(1)] obtain r where
    a: "(dmul a a = Fin r \<and> 0 \<le> r) \<or> dmul a a = PInf" by blast
  from square_not_NaN[OF assms(2)] obtain s where
    b: "(dmul b b = Fin s \<and> 0 \<le> s) \<or> dmul b b = PInf" by blast
  from a b show ?thesis by (auto simp add: norm2_def)
qed

lemma dsub_Fin_not_NaN: "a \<noteq> NaN \<Longrightarrow> dsub a (Fin c) \<noteq> NaN"
  by (cases a) (simp_all add: dsub_def)

lemma distance_not_NaN:
  assumes "fst p \<noteq> NaN" "snd p \<noteq> NaN" "is_Fin (fst center)" "is_Fin (snd center)"
  shows "norm2 (sub2 p center) \<noteq> NaN"
proof -
  obtain x y where c: "center = (Fin x, Fin y)"
    using assms(3,4) by (cases center; cases "fst center"; cases "snd center") simp_all
  show ?thesis using assms(1,2) c
    by (simp add: sub2_def norm2_not_NaN dsub_Fin_not_NaN)
qed

lemma std_min_cases: "std_min a b = a \<or> std_min a b = b"
  by (simp add: std_min_def)

lemma std_min_le:
  "a \<noteq> NaN \<Longrightarrow> b \<noteq> NaN \<Longrightarrow> \<not> dless a (std_min a b) \<and> \<not> dless b (std_min a b)"
  by (cases a; cases b) (simp_all add: std_min_def)


lemma mindist_loop_min:
  assumes rng: "list_all (\<lambda>(i, j). cell b i j = UndefinedIndexT \<or> unat (cell b i j) < length corners) cs"
    and nn: "corners_not_NaN corners"
    and ctr: "is_Fin (fst center)" "is_Fin (snd center)"
    and m: "m \<noteq> NaN"
  shows "\<exists>m'. mindist_loop corners center b cs m = Done m' \<and> m' \<noteq> NaN \<and> \<not> dless m m' \<and>
           (\<forall>d \<in> set (map (\<lambda>(i, j). norm2 (sub2 (corner_center (corners ! unat (cell b i j))) center))
                          (filter (\<lambda>(i, j). cell b i j \<noteq> UndefinedIndexT) cs)).
              d \<noteq> NaN \<and> \<not> dless d m') \<and>
           (m' = m \<or>
            m' \<in> set (map (\<lambda>(i, j). norm2 (sub2 (corner_center (corners ! unat (cell b i j))) center))
                          (filter (\<lambda>(i, j). cell b i j \<noteq> UndefinedIndexT) cs)))"
  using rng m
proof (induction cs arbitrary: m)
  case Nil
  then show ?case by (simp add: dless_irrefl)
next
  case (Cons c cs)
  obtain i j where c: "c = (i, j)" by (cases c)
  from Cons.prems(1) have rest:
    "list_all (\<lambda>(i, j). cell b i j = UndefinedIndexT \<or> unat (cell b i j) < length corners) cs"
    by simp
  show ?case
  proof (cases "cell b i j = UndefinedIndexT")
    case True
    from Cons.IH[OF rest Cons.prems(2)] True c show ?thesis by simp
  next
    case False
    with Cons.prems(1) c have r: "unat (cell b i j) < length corners" by simp
    let ?d = "norm2 (sub2 (corner_center (corners ! unat (cell b i j))) center)"
    have "fst (corner_center (corners ! unat (cell b i j))) \<noteq> NaN \<and>
          snd (corner_center (corners ! unat (cell b i j))) \<noteq> NaN"
      using nn r by (simp add: corners_not_NaN_def list_all_length)
    then have d: "?d \<noteq> NaN" using ctr by (simp add: distance_not_NaN)
    have m1: "std_min ?d m \<noteq> NaN" using d Cons.prems(2) std_min_cases[of ?d m] by auto
    from Cons.IH[OF rest m1] obtain m' where
      run: "mindist_loop corners center b cs (std_min ?d m) = Done m'"
      and nn': "m' \<noteq> NaN" and le: "\<not> dless (std_min ?d m) m'"
      and all: "\<forall>d \<in> set (map (\<lambda>(i, j). norm2 (sub2 (corner_center (corners ! unat (cell b i j))) center))
                          (filter (\<lambda>(i, j). cell b i j \<noteq> UndefinedIndexT) cs)).
              d \<noteq> NaN \<and> \<not> dless d m'"
      and mem: "m' = std_min ?d m \<or>
            m' \<in> set (map (\<lambda>(i, j). norm2 (sub2 (corner_center (corners ! unat (cell b i j))) center))
                          (filter (\<lambda>(i, j). cell b i j \<noteq> UndefinedIndexT) cs))"
      by blast
    note sm = std_min_le[OF d Cons.prems(2)]
    have dm': "\<not> dless ?d m'" using dle_trans[OF nn' m1 d le] sm by blast
    have mm': "\<not> dless m m'" using dle_trans[OF nn' m1 Cons.prems(2) le] sm by blast
    have mem': "m' = m \<or> m' = ?d \<or>
            m' \<in> set (map (\<lambda>(i, j). norm2 (sub2 (corner_center (corners ! unat (cell b i j))) center))
                          (filter (\<lambda>(i, j). cell b i j \<noteq> UndefinedIndexT) cs))"
      using mem std_min_cases[of ?d m] by auto
    show ?thesis using False r c run nn' dm' mm' all mem' d by auto
  qed
qed

lemma mindist_min:
  assumes "corners_in_range corners b" "corners_not_NaN corners"
    "is_Fin (fst center)" "is_Fin (snd center)"
  shows "\<exists>m. mindist corners center b = Done m \<and> m \<noteq> NaN \<and>
           (\<forall>d \<in> set (corner_distances corners center b). \<not> dless d m) \<and>
           (m = DBL_MAX \<or> m \<in> set (corner_distances corners center b))"
proof -
  have "DBL_MAX \<noteq> NaN" by (simp add: DBL_MAX_def)
  from mindist_loop_min[OF assms(1)[unfolded corners_in_range_def] assms(2,3,4) this]
  show ?thesis unfolding mindist_def corner_distances_def by blast
qed

lemma set_insert_by: "set (insert_by key a xs) = insert a (set xs)"
  by (induction xs) auto

lemma mset_insert_by: "mset (insert_by key a xs) = add_mset a (mset xs)"
  by (induction xs) auto

lemma mset_sort_by: "mset (sort_by key xs) = mset xs"
  by (induction xs) (simp_all add: sort_by_def mset_insert_by)

lemma sorted_insert_by:
  assumes "sorted_wrt (\<lambda>x y. \<not> dless (key y) (key x)) xs"
    and "key a \<noteq> NaN" and "\<forall>x \<in> set xs. key x \<noteq> NaN"
  shows "sorted_wrt (\<lambda>x y. \<not> dless (key y) (key x)) (insert_by key a xs)"
  using assms
proof (induction xs)
  case Nil
  then show ?case by simp
next
  case (Cons b bs)
  show ?case
  proof (cases "dless (key a) (key b)")
    case True
    have "\<forall>y \<in> set bs. \<not> dless (key y) (key a)"
    proof
      fix y assume y: "y \<in> set bs"
      with Cons.prems have "\<not> dless (key y) (key b)" "key y \<noteq> NaN" "key b \<noteq> NaN" by auto
      with dless_dle_trans[OF Cons.prems(2) _ _ True] show "\<not> dless (key y) (key a)" by blast
    qed
    then show ?thesis using True Cons.prems dless_asym[OF True] by simp
  next
    case False
    from Cons.prems have IH: "sorted_wrt (\<lambda>x y. \<not> dless (key y) (key x)) (insert_by key a bs)"
      using Cons.IH by simp
    show ?thesis using False Cons.prems IH by (auto simp add: set_insert_by)
  qed
qed

lemma sorted_sort_by:
  assumes "\<forall>x \<in> set xs. key x \<noteq> NaN"
  shows "sorted_wrt (\<lambda>x y. \<not> dless (key y) (key x)) (sort_by key xs)"
  using assms
proof (induction xs)
  case Nil
  then show ?case by (simp add: sort_by_def)
next
  case (Cons a xs)
  have s: "set (sort_by key xs) = set xs"
    using mset_sort_by[of key xs] by (metis set_mset_mset)
  from Cons have "sorted_wrt (\<lambda>x y. \<not> dless (key y) (key x)) (sort_by key xs)" by simp
  from sorted_insert_by[OF this, of a] Cons.prems s
  show ?case by (simp add: sort_by_def)
qed


lemma sorted_wrt_index:
  assumes "sorted_wrt (\<lambda>x y. \<not> dless (key y) (key x)) xs"
    and "i < length xs" "j < length xs" "dless (key (xs ! i)) (key (xs ! j))"
  shows "i < j"
proof (rule ccontr)
  assume "\<not> i < j"
  then consider "j = i" | "j < i" by linarith
  then show False
  proof cases
    case 1
    then show False using assms(4) dless_irrefl by simp
  next
    case 2
    from sorted_wrt_nth_less[OF assms(1) 2 assms(2)] assms(4) show False by simp
  qed
qed

text \<open>
  Claim C4: when the defined cells of the boards are indices of corners (an undefined
  cell is never used as an index) and no coordinate of a corner is a NaN,
  \<^verbatim>\<open>std::sort\<close> returns. Its result \<open>sorted\<close>, which the loop then
  processes from the front, is a permutation of the boards in which a board with a
  strictly smaller distance stands before every board with a larger one. The distance of
  a board is not a NaN, is not larger than the distance of any of its defined corners to
  the centre, and is one of these distances (or the largest double, for a board without
  a defined corner or with none as near).
\<close>

theorem boards_sorted_by_distance:
  assumes rng: "\<forall>b \<in> set boards. corners_in_range corners b"
    and nn: "corners_not_NaN corners"
  shows "\<exists>sorted. sort_boards corners (image_center view) boards = Done sorted \<and>
           mset sorted = mset boards \<and>
           (\<forall>i j. i < length sorted \<and> j < length sorted \<and>
                  dless (the_Done (mindist corners (image_center view) (sorted ! i)))
                        (the_Done (mindist corners (image_center view) (sorted ! j))) \<longrightarrow> i < j) \<and>
           (\<forall>b \<in> set boards. \<exists>m. mindist corners (image_center view) b = Done m \<and> m \<noteq> NaN \<and>
              (\<forall>d \<in> set (corner_distances corners (image_center view) b). \<not> dless d m) \<and>
              (m = DBL_MAX \<or> m \<in> set (corner_distances corners (image_center view) b)))"
proof -
  let ?center = "image_center view"
  let ?key = "\<lambda>b. the_Done (mindist corners ?center b)"
  have ctr: "is_Fin (fst ?center)" "is_Fin (snd ?center)"
    by (simp_all add: image_center_def)
  have md: "\<forall>b \<in> set boards. \<exists>m. mindist corners ?center b = Done m \<and> m \<noteq> NaN \<and>
              (\<forall>d \<in> set (corner_distances corners ?center b). \<not> dless d m) \<and>
              (m = DBL_MAX \<or> m \<in> set (corner_distances corners ?center b))"
    using rng nn ctr mindist_min by blast
  then have keys: "\<forall>b \<in> set boards. ?key b \<noteq> NaN" by fastforce
  have dn: "list_all (\<lambda>b. is_Done (mindist corners ?center b)) boards"
    using md by (fastforce simp add: list_all_iff)
  show ?thesis
  proof (cases "length boards < 2")
    case True
    then have so: "sort_boards corners ?center boards = Done boards"
      by (simp add: sort_boards_def)
    have "\<forall>i j. i < length boards \<and> j < length boards \<and> dless (?key (boards ! i)) (?key (boards ! j))
            \<longrightarrow> i < j"
    proof (intro allI impI)
      fix i j
      assume a: "i < length boards \<and> j < length boards \<and> dless (?key (boards ! i)) (?key (boards ! j))"
      with True have "i = 0" and "j = 0" by auto
      with a dless_irrefl show "i < j" by simp
    qed
    with so md show ?thesis by blast
  next
    case False
    then have so: "sort_boards corners ?center boards = Done (sort_by ?key boards)"
      using dn keys by (simp add: sort_boards_def list_all_iff)
    have srt: "sorted_wrt (\<lambda>x y. \<not> dless (?key y) (?key x)) (sort_by ?key boards)"
      using keys by (rule sorted_sort_by)
    have "\<forall>i j. i < length (sort_by ?key boards) \<and> j < length (sort_by ?key boards) \<and>
            dless (?key (sort_by ?key boards ! i)) (?key (sort_by ?key boards ! j)) \<longrightarrow> i < j"
      using sorted_wrt_index[OF srt] by blast
    with so md mset_sort_by[of ?key boards] show ?thesis by blast
  qed
qed

subsection \<open>The small instance\<close>

lemma cells_toy_board: "cells toy_board = [(0,0),(0,1),(0,2),(0,3),(0,4),(0,5),(1,0),(1,1),(1,2),(1,3),(1,4),(1,5),(2,0),(2,1),(2,2),(2,3),(2,4),(2,5),(3,0),(3,1),(3,2),(3,3),(3,4),(3,5),(4,0),(4,1),(4,2),(4,3),(4,4),(4,5)]"
  by code_simp

lemma cells_toy_small_board: "cells toy_small_board = [(0,0),(0,1),(1,0),(1,1)]"
  by code_simp

lemma length_toy_corners: "length toy_corners = 30"
  by (simp add: toy_corners_def)

lemma toy_corners_nth: "k < 30 \<Longrightarrow> corner_center (toy_corners ! k) = (Fin (real (10 * (k mod 6))), Fin (real (10 * (k div 6))))"
  by (simp add: toy_corners_def)

lemma cell_toy_small_board:
  "cell toy_small_board i j =
     (if i = 1 \<and> j = 1 then UndefinedIndexT else word_of_nat (i * 6 + j))"
  by (simp add: toy_small_board_def)

lemma cell_toy_board: "cell toy_board i j = word_of_nat (i * 6 + j)"
  by (simp add: toy_board_def)

lemma dless_norm2:
  "dless (norm2 (Fin a, Fin b)) (norm2 (Fin c, Fin d)) = (a * a + b * b < c * c + d * d)"
proof -
  have n1: "\<not> a * a + b * b < 0" and n2: "\<not> c * c + d * d < 0"
    by (simp_all add: not_less)
  show ?thesis by (simp add: norm2_def n1 n2)
qed

lemma DBL_MAX_large: "DBL_MAX = Fin m \<Longrightarrow> 10000 \<le> m"
  by (simp add: DBL_MAX_def)

lemma dless_max_norm2:
  assumes "a * a + b * b \<le> 100000000"
  shows "dless DBL_MAX (norm2 (Fin a, Fin b)) = False"
proof -
  have "sqrt (a * a + b * b) \<le> sqrt (10000 ^ 2)"
    using assms by (subst real_sqrt_le_iff) simp
  then have le: "sqrt (a * a + b * b) \<le> 10000" by simp
  obtain m where m: "DBL_MAX = Fin m" by (simp add: DBL_MAX_def)
  have n: "\<not> a * a + b * b < 0" by (simp add: not_less)
  have "\<not> m < sqrt (a * a + b * b)" using le DBL_MAX_large[OF m] by linarith
  then show ?thesis unfolding m by (simp add: norm2_def n)
qed


lemma mindist_small: "mindist toy_corners (Fin 50, Fin 50) toy_small_board = Done (norm2 (Fin (- 50), Fin (- 40)))"
  by (simp add: mindist_def cells_toy_small_board cell_toy_small_board UndefinedIndexT_def toy_corners_nth
     length_toy_corners sub2_def dsub_def std_min_def dless_norm2 dless_max_norm2)

lemma mindist_big: "mindist toy_corners (Fin 50, Fin 50) toy_board = Done (norm2 (Fin 0, Fin (-10)))"
  by (simp add: mindist_def cells_toy_board cell_toy_board UndefinedIndexT_def toy_corners_nth
     length_toy_corners sub2_def dsub_def std_min_def dless_norm2 dless_max_norm2)

lemma toy_image_center: "image_center (toy_view 7) = (Fin 50, Fin 50)"
  by (simp add: image_center_def toy_view_def)

lemma toy_corners_not_NaN: "corners_not_NaN toy_corners"
  by (simp add: corners_not_NaN_def toy_corners_def list_all_iff)

lemma toy_sort_boards:
  "sort_boards toy_corners (Fin 50, Fin 50) [toy_small_board, toy_board] =
     Done [toy_board, toy_small_board]"
  by (simp add: sort_boards_def sort_by_def mindist_small mindist_big dless_norm2 norm2_not_NaN)

theorem boards_sorted_by_distance_witness:
  "image_center (toy_view 7) = (Fin 50, Fin 50) \<and>
   corners_in_range toy_corners toy_small_board \<and> corners_in_range toy_corners toy_board \<and>
   corners_not_NaN toy_corners \<and>
   mindist toy_corners (Fin 50, Fin 50) toy_small_board = Done (norm2 (Fin (- 50), Fin (- 40))) \<and>
   mindist toy_corners (Fin 50, Fin 50) toy_board = Done (norm2 (Fin 0, Fin (- 10))) \<and>
   sort_boards toy_corners (Fin 50, Fin 50) [toy_small_board, toy_board] =
     Done [toy_board, toy_small_board]"
proof -
  have rng: "\<forall>b \<in> set [toy_small_board, toy_board]. corners_in_range toy_corners b"
    by (simp add: toy_board_in_range toy_small_board_in_range)
  from boards_sorted_by_distance[OF rng toy_corners_not_NaN, of "toy_view 7"]
  obtain sorted where
    so: "sort_boards toy_corners (Fin 50, Fin 50) [toy_small_board, toy_board] = Done sorted"
    and ms: "mset sorted = mset [toy_small_board, toy_board]"
    and ord: "\<forall>i j. i < length sorted \<and> j < length sorted \<and>
                  dless (the_Done (mindist toy_corners (Fin 50, Fin 50) (sorted ! i)))
                        (the_Done (mindist toy_corners (Fin 50, Fin 50) (sorted ! j))) \<longrightarrow> i < j"
    by (auto simp add: toy_image_center)
  from ms have len: "length sorted = 2" by (metis length_Cons list.size(3) size_mset One_nat_def Suc_1)
  then obtain x y where xy: "sorted = [x, y]"
    by (metis (no_types, opaque_lifting) One_nat_def Suc_1 length_0_conv length_Suc_conv)
  from ms have "set sorted = set [toy_small_board, toy_board]" by (rule mset_eq_setD)
  with xy have "{x, y} = {toy_small_board, toy_board}" by simp
  then consider "x = toy_small_board \<and> y = toy_board" | "x = toy_board \<and> y = toy_small_board"
    by (auto simp add: doubleton_eq_iff)
  then have "sorted = [toy_board, toy_small_board]"
  proof cases
    case 1
    have "dless (the_Done (mindist toy_corners (Fin 50, Fin 50) (sorted ! 1)))
                (the_Done (mindist toy_corners (Fin 50, Fin 50) (sorted ! 0)))"
      using 1 xy by (simp add: mindist_small mindist_big dless_norm2)
    with ord len have "(1::nat) < 0" by (metis One_nat_def Suc_1 lessI zero_less_Suc)
    then show ?thesis by simp
  next
    case 2
    then show ?thesis using xy by simp
  qed
  with so show ?thesis
    by (simp add: toy_board_in_range toy_small_board_in_range toy_corners_not_NaN
        mindist_small mindist_big toy_image_center)
qed

section \<open>Nested boards: the whole function\<close>

lemma boards_loop_append:
  "boards_loop L C pinhole view corners usp st0 (pre @ bs) =
     (case boards_loop L C pinhole view corners usp st0 pre of
        Done (Finished st) \<Rightarrow> boards_loop L C pinhole view corners usp st bs
      | Done (Aborted s) \<Rightarrow> Done (Aborted s)
      | Throws \<Rightarrow> Throws
      | UB \<Rightarrow> UB)"
proof (induction pre arbitrary: st0)
  case Nil
  then show ?case by simp
next
  case (Cons b pre)
  show ?case
  proof (cases "board_step L C pinhole view corners usp st0 b")
    case (Done e)
    then show ?thesis using Cons.IH by (cases e) simp_all
  next
    case Throws
    then show ?thesis by simp
  next
    case UB
    then show ?thesis by simp
  qed
qed

lemma length_insert_by: "length (insert_by key a xs) = Suc (length xs)"
  by (induction xs) simp_all

lemma length_sort_by: "length (sort_by key xs) = length xs"
  by (induction xs) (simp_all add: sort_by_def length_insert_by)

lemma sort_boards_length:
  "sort_boards corners center bs = Done xs \<Longrightarrow> length xs = length bs"
  by (auto simp add: sort_boards_def length_sort_by split: if_splits)

lemma singleton_hd: "length xs = 1 \<Longrightarrow> xs = [hd xs]"
  by (cases xs) simp_all

lemma process_innerGrids_loop:
  assumes bai: "boardsAllImages = [(vid, detector)]"
    and v: "map_of (views sfmData) vid = Some view"
    and i: "map_of (intrinsics sfmData) (intrinsicId view) = Some (IsPinhole pinhole)"
    and ne: "getBoards detector \<noteq> []"
    and so: "sort_boards (getCorners detector) (image_center view) (getBoards detector) = Done boards"
  shows "process_innerGrids L C sfmData boardsAllImages squareSize distance usp =
     (case boards_loop L C pinhole view (getCorners detector) usp (initial_grid_state sfmData)
             boards of
        UB \<Rightarrow> UB
      | Throws \<Rightarrow> Throws
      | Done (Aborted s) \<Rightarrow> Done (False, s)
      | Done (Finished st) \<Rightarrow>
          (case refine_innerGrids L C distance usp (intrinsicId view) pinhole (gs_sfmData st) of
             (False, s) \<Rightarrow> Done (False, s)
           | (True, s) \<Rightarrow> Done (True, finalize vid view s)))"
proof -
  have l: "\<not> length (getBoards detector) < 1" using ne by (cases "getBoards detector") simp_all
  show ?thesis using bai v i l so
    by (simp add: process_innerGrids_def initial_grid_state_def Let_def)
qed







section \<open>Fewer than 10 inliers\<close>

lemma homography_points_in_range:
  assumes "list_all (\<lambda>(i, j). cell b i j = UndefinedIndexT \<or> unat (cell b i j) < length corners) cs"
  shows "\<exists>refpts points. homography_points C cam corners sq b cs acc = Done (refpts, points)"
  using assms
proof (induction cs arbitrary: acc)
  case Nil
  then show ?case by (cases acc) simp
next
  case (Cons c cs)
  obtain i j where c: "c = (i, j)" by (cases c)
  from Cons.prems have rest:
    "list_all (\<lambda>(i, j). cell b i j = UndefinedIndexT \<or> unat (cell b i j) < length corners) cs"
    by simp
  from Cons.prems c have "cell b i j = UndefinedIndexT \<or> unat (cell b i j) < length corners"
    by simp
  then show ?case using Cons.IH[OF rest] c by auto
qed

lemma gather_skip_few_inliers:
  assumes "intrinsicId (snd pv) = k" and "getBoards (detector_of bai (fst pv)) = [b]"
    and "homography_points C cam (getCorners (detector_of bai (fst pv))) sq b (cells b) ([], []) =
           Done (refpts, points)"
    and "length (fst (ACRANSAC_homography L refpts points (cam_w cam) (cam_h cam))) < 10"
  shows "gather_homographies L C cam k bai sq (pv # rest) (mw, mh, hs) =
         gather_homographies L C cam k bai sq rest (max (cols b) mw, max (rows b) mh, hs)"
  using assms by (simp add: Let_def)

lemma innerGrids_abort_few_inliers:
  assumes bai: "boardsAllImages = [(vid, detector)]"
    and v: "map_of (views sfmData) vid = Some view"
    and i: "map_of (intrinsics sfmData) (intrinsicId view) = Some (IsPinhole pinhole)"
    and so: "sort_boards (getCorners detector) (image_center view) (getBoards detector) =
               Done (pre @ board # rest)"
    and lo: "boards_loop L C pinhole view (getCorners detector) usp (initial_grid_state sfmData) pre =
               Done (Finished st)"
    and big: "30 \<le> count_points board"
    and ap: "add_points C pinhole (getCorners detector) usp board (localSquareSize st)
               (idx_checkerboard_valid st) (cells board) (landmarks (gs_sfmData st), [], []) =
               Done (lms, refpts, points)"
    and few: "length (fst (ACRANSAC_resection L points refpts (getK C pinhole))) < 10"
  shows "process_innerGrids L C sfmData boardsAllImages squareSize distance usp =
           Done (False, (gs_sfmData st)\<lparr>landmarks := lms\<rparr>)"
proof -
  from sort_boards_length[OF so] have ne: "getBoards detector \<noteq> []" by auto
  have step: "board_step L C pinhole view (getCorners detector) usp st board =
      Done (Aborted ((gs_sfmData st)\<lparr>landmarks := lms\<rparr>))"
    using big ap few by (simp add: board_step_def Let_def)
  have "boards_loop L C pinhole view (getCorners detector) usp (initial_grid_state sfmData)
          (pre @ board # rest) = Done (Aborted ((gs_sfmData st)\<lparr>landmarks := lms\<rparr>))"
    using lo step by (simp add: boards_loop_append)
  with process_innerGrids_loop[OF bai v i ne so, of L C squareSize distance usp]
  show ?thesis by simp
qed

text \<open>
  Claim C5: in the mode of nested boards, when the loop has processed the boards \<open>pre\<close>
  and the pose estimation of the next board, an accepted one, has fewer than 10 inliers,
  \<^verbatim>\<open>process_innerGrids\<close> returns \<^verbatim>\<open>false\<close> at once: the scene is the one of that moment,
  whatever boards \<open>rest\<close> come later. In the mode of several views, a view whose
  homography has fewer than 10 inliers is passed over: the loop goes on with the other
  views and the homographies are what they were (only the largest board size has taken
  the view into account).
\<close>

theorem few_inliers_abort_or_skip:
  "(boardsAllImages = [(vid, detector)] \<and>
    map_of (views sfmData) vid = Some view \<and>
    map_of (intrinsics sfmData) (intrinsicId view) = Some (IsPinhole pinhole) \<and>
    sort_boards (getCorners detector) (image_center view) (getBoards detector) =
      Done (pre @ board # rest) \<and>
    boards_loop L C pinhole view (getCorners detector) usp (initial_grid_state sfmData) pre =
      Done (Finished st) \<and>
    30 \<le> count_points board \<and>
    add_points C pinhole (getCorners detector) usp board (localSquareSize st)
      (idx_checkerboard_valid st) (cells board) (landmarks (gs_sfmData st), [], []) =
      Done (lms, refpts, points) \<and>
    length (fst (ACRANSAC_resection L points refpts (getK C pinhole))) < 10
    \<longrightarrow> process_innerGrids L C sfmData boardsAllImages squareSize distance usp =
          Done (False, (gs_sfmData st)\<lparr>landmarks := lms\<rparr>)) \<and>
   (intrinsicId (snd pv) = k \<and>
    getBoards (detector_of bai (fst pv)) = [b] \<and>
    homography_points C cam (getCorners (detector_of bai (fst pv))) sq b (cells b) ([], []) =
      Done (refpts', points') \<and>
    length (fst (ACRANSAC_homography L refpts' points' (cam_w cam) (cam_h cam))) < 10
    \<longrightarrow> gather_homographies L C cam k bai sq (pv # others) (mw, mh, hs) =
          gather_homographies L C cam k bai sq others (max (cols b) mw, max (rows b) mh, hs))"
proof (intro conjI impI)
  assume "boardsAllImages = [(vid, detector)] \<and>
    map_of (views sfmData) vid = Some view \<and>
    map_of (intrinsics sfmData) (intrinsicId view) = Some (IsPinhole pinhole) \<and>
    sort_boards (getCorners detector) (image_center view) (getBoards detector) =
      Done (pre @ board # rest) \<and>
    boards_loop L C pinhole view (getCorners detector) usp (initial_grid_state sfmData) pre =
      Done (Finished st) \<and>
    30 \<le> count_points board \<and>
    add_points C pinhole (getCorners detector) usp board (localSquareSize st)
      (idx_checkerboard_valid st) (cells board) (landmarks (gs_sfmData st), [], []) =
      Done (lms, refpts, points) \<and>
    length (fst (ACRANSAC_resection L points refpts (getK C pinhole))) < 10"
  then show "process_innerGrids L C sfmData boardsAllImages squareSize distance usp =
          Done (False, (gs_sfmData st)\<lparr>landmarks := lms\<rparr>)"
    by (elim conjE) (rule innerGrids_abort_few_inliers)
next
  assume "intrinsicId (snd pv) = k \<and>
    getBoards (detector_of bai (fst pv)) = [b] \<and>
    homography_points C cam (getCorners (detector_of bai (fst pv))) sq b (cells b) ([], []) =
      Done (refpts', points') \<and>
    length (fst (ACRANSAC_homography L refpts' points' (cam_w cam) (cam_h cam))) < 10"
  then show "gather_homographies L C cam k bai sq (pv # others) (mw, mh, hs) =
          gather_homographies L C cam k bai sq others (max (cols b) mw, max (rows b) mh, hs)"
    by (elim conjE) (rule gather_skip_few_inliers)
qed


lemma toy_sort_boards_center:
  "sort_boards (getCorners toy_detector2) (image_center (toy_view 7)) (getBoards toy_detector2) =
     Done ([] @ toy_board # [toy_small_board])"
  by (simp add: toy_detector2_def toy_image_center toy_sort_boards)

theorem few_inliers_abort_or_skip_witness:
  "\<not> fst (the_Done (process_innerGrids toy_calib_lib_no_inliers toy_camera_lib toy_scene
            [(7, toy_detector2)] (Fin (1 / 10)) (Fin 1) False)) \<and>
   is_Done (process_innerGrids toy_calib_lib_no_inliers toy_camera_lib toy_scene
            [(7, toy_detector2)] (Fin (1 / 10)) (Fin 1) False) \<and>
   gather_homographies toy_calib_lib_no_inliers toy_camera_lib toy_pinhole 0
     [(7, toy_detector), (8, toy_detector)] (Fin (1 / 10)) [(7, toy_view 7)] (0, 0, []) =
     Done (6, 5, [])"
proof -
  let ?st = "initial_grid_state toy_scene"
  obtain lms refpts points where
    ap: "add_points toy_camera_lib toy_pinhole (getCorners toy_detector2) False toy_board
           (localSquareSize ?st) (idx_checkerboard_valid ?st) (cells toy_board)
           (landmarks (gs_sfmData ?st), [], []) = Done (lms, refpts, points)"
  proof -
    have "corners_in_range (getCorners toy_detector2) toy_board"
      by (simp add: toy_detector2_def toy_board_in_range)
    from add_points_Done_iff[OF this, of toy_camera_lib toy_pinhole False "localSquareSize ?st"
        "idx_checkerboard_valid ?st" "landmarks (gs_sfmData ?st)"] that
    show ?thesis by blast
  qed
  obtain refpts' points' where
    hp: "homography_points toy_camera_lib toy_pinhole
           (getCorners (detector_of [(7, toy_detector), (8, toy_detector)] (fst (7, toy_view 7))))
           (Fin (1 / 10)) toy_board (cells toy_board) ([], []) = Done (refpts', points')"
  proof -
    have c: "getCorners (detector_of [(7, toy_detector), (8, toy_detector)] (fst (7, toy_view 7))) =
        toy_corners"
      by (simp add: detector_of_def toy_detector_def)
    have "list_all (\<lambda>(i, j). cell toy_board i j = UndefinedIndexT \<or>
             unat (cell toy_board i j) < length toy_corners) (cells toy_board)"
      using toy_board_in_range by (simp add: corners_in_range_def)
    from homography_points_in_range[OF this, of toy_camera_lib toy_pinhole "Fin (1 / 10)" "([], [])"]
      that c
    show ?thesis by auto
  qed
  note T = few_inliers_abort_or_skip[where L = toy_calib_lib_no_inliers and C = toy_camera_lib
      and boardsAllImages = "[(7, toy_detector2)]" and vid = 7 and detector = toy_detector2
      and sfmData = toy_scene and view = "toy_view 7" and pinhole = toy_pinhole
      and pre = "[]" and board = toy_board and rest = "[toy_small_board]" and usp = False
      and st = ?st and lms = lms and refpts = refpts and points = points
      and squareSize = "Fin (1 / 10)" and distance = "Fin 1"
      and pv = "(7, toy_view 7)" and k = 0 and bai = "[(7, toy_detector), (8, toy_detector)]"
      and b = toy_board and cam = toy_pinhole and sq = "Fin (1 / 10)"
      and refpts' = refpts' and points' = points' and others = "[]"
      and mw = 0 and mh = 0 and hs = "[]"]
  have a: "process_innerGrids toy_calib_lib_no_inliers toy_camera_lib toy_scene
            [(7, toy_detector2)] (Fin (1 / 10)) (Fin 1) False =
           Done (False, (gs_sfmData ?st)\<lparr>landmarks := lms\<rparr>)"
    using T[THEN conjunct1] toy_sort_boards_center ap
    by (simp add: toy_scene_def toy_view_def toy_board_count toy_calib_lib_no_inliers_def)
  have b: "gather_homographies toy_calib_lib_no_inliers toy_camera_lib toy_pinhole 0
     [(7, toy_detector), (8, toy_detector)] (Fin (1 / 10)) [(7, toy_view 7)] (0, 0, []) =
     Done (6, 5, [])"
    using T[THEN conjunct2] hp
    by (simp add: toy_view_def detector_of_def toy_detector_def toy_calib_lib_no_inliers_def
        toy_board_def)
  from a b show ?thesis by simp
qed

section \<open>Nested boards: the correction of the aspect ratio\<close>





text \<open>Whatever the intrinsic, the scale after two steps is the scale after one.\<close>

lemma equalize_scale_idempotent:
  "cam_scale (fst (equalize_vertical_scale C (fst (equalize_vertical_scale C pinhole lms)) lms')) =
   cam_scale (fst (equalize_vertical_scale C pinhole lms))"
  by (simp add: equalize_vertical_scale_def Let_def)





section \<open>Several views: the closed form and the first test\<close>

















text \<open>
  Claim C1 says that \<^verbatim>\<open>process_basic\<close> returns \<^verbatim>\<open>false\<close> for fewer than 2 detection
  sets. The code logs the error and executes \<^verbatim>\<open>return EXIT_FAILURE\<close>; the function
  returns \<^verbatim>\<open>bool\<close>, the macro is 1, and the caller receives \<^verbatim>\<open>true\<close>, with the scene
  untouched.
\<close>

theorem process_basic_too_few_views:
  "length boardsAllImages < 2 \<Longrightarrow>
   process_basic L C sfmData boardsAllImages squareSize = Done (True, sfmData)"
  by (simp add: process_basic_def bool_of_int_def EXIT_FAILURE_def)

theorem process_basic_too_few_views_witness:
  "length [(7, toy_detector3)] < 2 \<and>
   process_basic toy_calib_lib toy_camera_lib toy_scene [(7, toy_detector3)] (Fin (1 / 10)) =
     Done (True, toy_scene)"
  using process_basic_too_few_views[of "[(7, toy_detector3)]" toy_calib_lib toy_camera_lib
      toy_scene "Fin (1 / 10)"]
  by simp

end
